theory Spec2Isabelle
  imports Main "HOL-Library.Multiset" "HOL-Library.Sublist" "HOL-Library.Word"
begin

section \<open>Data shared by the hook manager and the ACL hook\<close>

text \<open>
  A Go \<open>error\<close> built by \<open>fmt.Errorf\<close> is its message; \<open>nil\<close> is \<open>None\<close> of
  \<open>error option\<close>. A function that returns \<open>(value, error)\<close> returns \<open>error + value\<close>.
\<close>

datatype error = Errorf string

fun Error :: "error \<Rightarrow> string" where
  "Error (Errorf msg) = msg"

text \<open>
  The fields of \<open>mesos.TaskInfo\<close> (mesos-go) that the code reads, named after the
  getters it calls: \<open>GetLabels().GetLabels()\<close>,
  \<open>GetContainer().GetDocker().GetNetwork()\<close> and
  \<open>GetContainer().GetDocker().GetPortMappings()\<close>. The getters are nil-safe, so an
  absent message reads as the empty list, the empty string and the network \<open>HOST\<close>.
\<close>

datatype Network = HOST | BRIDGE | NONE | USER

record PortMapping =
  GetProtocol :: string
  GetHostPort :: "32 word"

record Label =
  GetKey :: string
  GetValue :: string

record TaskInfo =
  GetLabels :: "Label list"
  GetNetwork :: Network
  GetPortMappings :: "PortMapping list"

section \<open>hook/hook\_manager.go: the hook manager\<close>

text \<open>
  A callback acts on the executor's environment, a state of type \<open>'w\<close>, and returns
  its error with the new state. The containerizer and the framework descriptor are
  only handed through, so their types \<open>'c\<close> and \<open>'f\<close> are left open.
\<close>

text \<open>
  Modelled from the spec: the declaration of the struct \<open>Hook\<close>, which is in hook.go
  and not among the sources: a name, an integer priority (higher runs first) and five
  optional phase callbacks; an absent callback is \<open>None\<close>. The field names are the
  ones hook\_manager.go reads, the arguments of each callback the ones \<open>runHooks\<close>
  passes.
\<close>

record ('c, 'f, 'w) Hook =
  Name :: string
  Priority :: int
  RunPreCreate :: "('c \<Rightarrow> TaskInfo \<Rightarrow> 'f \<Rightarrow> 'w \<Rightarrow> error option \<times> 'w) option"
  RunPreRun :: "('c \<Rightarrow> TaskInfo \<Rightarrow> 'f \<Rightarrow> string \<Rightarrow> 'w \<Rightarrow> error option \<times> 'w) option"
  RunPostRun :: "('c \<Rightarrow> TaskInfo \<Rightarrow> 'f \<Rightarrow> string \<Rightarrow> 'w \<Rightarrow> error option \<times> 'w) option"
  RunPreStop :: "('c \<Rightarrow> TaskInfo \<Rightarrow> 'f \<Rightarrow> string \<Rightarrow> 'w \<Rightarrow> error option \<times> 'w) option"
  RunPostStop :: "('c \<Rightarrow> TaskInfo \<Rightarrow> 'f \<Rightarrow> string \<Rightarrow> 'w \<Rightarrow> error option \<times> 'w) option"

text \<open>\<open>EnabledHooks\<close> is a \<open>map[string]struct{}\<close>: the set of its keys.\<close>

record ('c, 'f, 'w) Manager =
  EnabledHooks :: "string set"
  Hooks :: "('c, 'f, 'w) Hook list"

record ('c, 'f, 'w) sorter =
  hooks :: "('c, 'f, 'w) Hook list"
  less_by :: "('c, 'f, 'w) Hook \<Rightarrow> ('c, 'f, 'w) Hook \<Rightarrow> bool"

type_synonym "when" = string

definition preCreate :: "when" where "preCreate = ''pre-create''"
definition preRun :: "when" where "preRun = ''pre-run''"
definition postRun :: "when" where "postRun = ''post-run''"
definition preStop :: "when" where "preStop = ''pre-stop''"
definition postStop :: "when" where "postStop = ''post-stop''"

subsection \<open>The sort interface\<close>

definition Len :: "('c, 'f, 'w) sorter \<Rightarrow> nat" where
  "Len s = length (hooks s)"

definition Less :: "('c, 'f, 'w) sorter \<Rightarrow> nat \<Rightarrow> nat \<Rightarrow> bool" where
  "Less s i j = less_by s (hooks s ! i) (hooks s ! j)"

definition Swap :: "('c, 'f, 'w) sorter \<Rightarrow> nat \<Rightarrow> nat \<Rightarrow> ('c, 'f, 'w) sorter" where
  "Swap s i j = s\<lparr>hooks := (hooks s)[i := hooks s ! j, j := hooks s ! i]\<rparr>"

text \<open>
  \<open>sort.Sort\<close> belongs to Go's standard library (Go 1.19 and later): it calls
  \<open>pdqsort(data, 0, n, limit)\<close>, which on a slice of at most 12 elements is the
  library's \<open>insertionSort(data, 0, n)\<close>, working through \<open>Less\<close> and \<open>Swap\<close> alone:
  \<^verbatim>\<open>
  for i := a + 1; i < b; i++ {
      for j := i; j > a && data.Less(j, j-1); j-- {
          data.Swap(j, j-1)
      }
  }
  \<close>
  Every index these loops use is below \<open>n\<close>. What the library does on a longer
  slice is code outside this repository: it is the parameter \<open>pdqsort\<close> of
  \<open>sort_Sort\<close> and of the functions of the manager that sort. (Before Go 1.19 the library
  sorts 7 to 12 elements by one pass of swaps at distance 6 followed by the same
  insertion sort.)
\<close>

fun insertionSort_inner :: "('c, 'f, 'w) sorter \<Rightarrow> nat \<Rightarrow> nat \<Rightarrow> ('c, 'f, 'w) sorter" where
  "insertionSort_inner data a 0 = data"
| "insertionSort_inner data a (Suc j) =
     (if Suc j > a \<and> Less data (Suc j) j
      then insertionSort_inner (Swap data (Suc j) j) a j
      else data)"

definition insertionSort :: "('c, 'f, 'w) sorter \<Rightarrow> nat \<Rightarrow> nat \<Rightarrow> ('c, 'f, 'w) sorter" where
  "insertionSort data a b = foldl (\<lambda>d i. insertionSort_inner d a i) data [Suc a..<b]"

definition sort_Sort ::
  "(('c, 'f, 'w) sorter \<Rightarrow> ('c, 'f, 'w) sorter) \<Rightarrow> ('c, 'f, 'w) sorter \<Rightarrow> ('c, 'f, 'w) sorter" where
  "sort_Sort pdqsort data =
     (let n = Len data in if n \<le> 12 then insertionSort data 0 n else pdqsort data)"

subsection \<open>NewManager, sort, sortByPriority, RegisterHooks\<close>

definition NewManager :: "string list \<Rightarrow> ('c, 'f, 'w) Manager" where
  "NewManager hks = \<lparr>EnabledHooks = set hks, Hooks = []\<rparr>"

text \<open>
  \<open>Manager.sort\<close>: the sorter holds the slice \<open>m.Hooks\<close> itself, so the swaps are
  seen in the manager.
\<close>

definition Manager_sort ::
  "(('c, 'f, 'w) sorter \<Rightarrow> ('c, 'f, 'w) sorter) \<Rightarrow> ('c, 'f, 'w) Manager
     \<Rightarrow> (('c, 'f, 'w) Hook \<Rightarrow> ('c, 'f, 'w) Hook \<Rightarrow> bool) \<Rightarrow> ('c, 'f, 'w) Manager" where
  "Manager_sort pdqsort m by_fn =
     (let hookSorter = \<lparr>hooks = Hooks m, less_by = by_fn\<rparr>
      in m\<lparr>Hooks := hooks (sort_Sort pdqsort hookSorter)\<rparr>)"

definition sortByPriority ::
  "(('c, 'f, 'w) sorter \<Rightarrow> ('c, 'f, 'w) sorter) \<Rightarrow> ('c, 'f, 'w) Manager \<Rightarrow> ('c, 'f, 'w) Manager" where
  "sortByPriority pdqsort m = Manager_sort pdqsort m (\<lambda>h1 h2. \<not> (Priority h1 < Priority h2))"

fun RegisterHooks_loop :: "('c, 'f, 'w) Manager \<Rightarrow> ('c, 'f, 'w) Hook list \<Rightarrow> ('c, 'f, 'w) Manager" where
  "RegisterHooks_loop m [] = m"
| "RegisterHooks_loop m (hook # hks) =
     (if Name hook \<notin> EnabledHooks m
      then RegisterHooks_loop m hks
      else RegisterHooks_loop (m\<lparr>Hooks := Hooks m @ [hook]\<rparr>) hks)"

definition RegisterHooks ::
  "(('c, 'f, 'w) sorter \<Rightarrow> ('c, 'f, 'w) sorter) \<Rightarrow> ('c, 'f, 'w) Manager \<Rightarrow> ('c, 'f, 'w) Hook list
     \<Rightarrow> ('c, 'f, 'w) Manager" where
  "RegisterHooks pdqsort m hks = sortByPriority pdqsort (RegisterHooks_loop m hks)"

subsection \<open>runHooks and the five entry points\<close>

text \<open>
  The \<open>switch w\<close> of \<open>runHooks\<close> for one hook: \<open>Inr None\<close> when the callback of the
  phase is nil (the loop continues), \<open>Inr (Some run)\<close> with the call the case makes,
  \<open>Inl\<close> the error of the default case.
\<close>

definition hookCallback ::
  "when \<Rightarrow> ('c, 'f, 'w) Hook \<Rightarrow> 'c \<Rightarrow> TaskInfo \<Rightarrow> 'f \<Rightarrow> string
     \<Rightarrow> error + ('w \<Rightarrow> error option \<times> 'w) option" where
  "hookCallback w hook c taskInfo frameworkInfo containerID =
     (if w = preCreate then
        (case RunPreCreate hook of None \<Rightarrow> Inr None
         | Some run \<Rightarrow> Inr (Some (run c taskInfo frameworkInfo)))
      else if w = preRun then
        (case RunPreRun hook of None \<Rightarrow> Inr None
         | Some run \<Rightarrow> Inr (Some (run c taskInfo frameworkInfo containerID)))
      else if w = postRun then
        (case RunPostRun hook of None \<Rightarrow> Inr None
         | Some run \<Rightarrow> Inr (Some (run c taskInfo frameworkInfo containerID)))
      else if w = preStop then
        (case RunPreStop hook of None \<Rightarrow> Inr None
         | Some run \<Rightarrow> Inr (Some (run c taskInfo frameworkInfo containerID)))
      else if w = postStop then
        (case RunPostStop hook of None \<Rightarrow> Inr None
         | Some run \<Rightarrow> Inr (Some (run c taskInfo frameworkInfo containerID)))
      else Inl (Errorf ''''))"

text \<open>The loop \<open>for _, hook := range m.Hooks\<close>. The log lines are not modelled.\<close>

fun runHooks_loop ::
  "when \<Rightarrow> 'c \<Rightarrow> TaskInfo \<Rightarrow> 'f \<Rightarrow> string \<Rightarrow> bool \<Rightarrow> ('c, 'f, 'w) Hook list \<Rightarrow> 'w
     \<Rightarrow> error option \<times> 'w" where
  "runHooks_loop w c taskInfo frameworkInfo containerID exitOnError [] s = (None, s)"
| "runHooks_loop w c taskInfo frameworkInfo containerID exitOnError (hook # hks) s =
     (case hookCallback w hook c taskInfo frameworkInfo containerID of
        Inl e \<Rightarrow> (Some e, s)
      | Inr None \<Rightarrow> runHooks_loop w c taskInfo frameworkInfo containerID exitOnError hks s
      | Inr (Some run) \<Rightarrow>
          (case run s of
             (Some err, s') \<Rightarrow>
               if exitOnError then (Some err, s')
               else runHooks_loop w c taskInfo frameworkInfo containerID exitOnError hks s'
           | (None, s') \<Rightarrow>
               runHooks_loop w c taskInfo frameworkInfo containerID exitOnError hks s'))"

text \<open>
  \<open>runHooks\<close> has the manager as its pointer receiver: the result carries the
  manager as the call leaves it, next to the error and the environment.
\<close>

definition runHooks ::
  "('c, 'f, 'w) Manager \<Rightarrow> when \<Rightarrow> 'c \<Rightarrow> TaskInfo \<Rightarrow> 'f \<Rightarrow> string \<Rightarrow> bool \<Rightarrow> 'w
     \<Rightarrow> error option \<times> ('c, 'f, 'w) Manager \<times> 'w" where
  "runHooks m w c taskInfo frameworkInfo containerID exitOnError s =
     (case runHooks_loop w c taskInfo frameworkInfo containerID exitOnError (Hooks m) s of
        (err, s') \<Rightarrow> (err, m, s'))"

definition RunPreCreateHooks ::
  "('c, 'f, 'w) Manager \<Rightarrow> 'c \<Rightarrow> TaskInfo \<Rightarrow> 'f \<Rightarrow> 'w \<Rightarrow> error option \<times> ('c, 'f, 'w) Manager \<times> 'w" where
  "RunPreCreateHooks m c taskInfo frameworkInfo =
     runHooks m preCreate c taskInfo frameworkInfo '''' True"

definition RunPreRunHooks ::
  "('c, 'f, 'w) Manager \<Rightarrow> 'c \<Rightarrow> TaskInfo \<Rightarrow> 'f \<Rightarrow> string \<Rightarrow> 'w
     \<Rightarrow> error option \<times> ('c, 'f, 'w) Manager \<times> 'w" where
  "RunPreRunHooks m c taskInfo frameworkInfo containerID =
     runHooks m preRun c taskInfo frameworkInfo containerID True"

definition RunPostRunHooks ::
  "('c, 'f, 'w) Manager \<Rightarrow> 'c \<Rightarrow> TaskInfo \<Rightarrow> 'f \<Rightarrow> string \<Rightarrow> 'w
     \<Rightarrow> error option \<times> ('c, 'f, 'w) Manager \<times> 'w" where
  "RunPostRunHooks m c taskInfo frameworkInfo containerID =
     runHooks m postRun c taskInfo frameworkInfo containerID True"

definition RunPreStopHooks ::
  "('c, 'f, 'w) Manager \<Rightarrow> 'c \<Rightarrow> TaskInfo \<Rightarrow> 'f \<Rightarrow> string \<Rightarrow> 'w
     \<Rightarrow> error option \<times> ('c, 'f, 'w) Manager \<times> 'w" where
  "RunPreStopHooks m c taskInfo frameworkInfo containerID =
     runHooks m preStop c taskInfo frameworkInfo containerID False"

definition RunPostStopHooks ::
  "('c, 'f, 'w) Manager \<Rightarrow> 'c \<Rightarrow> TaskInfo \<Rightarrow> 'f \<Rightarrow> string \<Rightarrow> 'w
     \<Rightarrow> error option \<times> ('c, 'f, 'w) Manager \<times> 'w" where
  "RunPostStopHooks m c taskInfo frameworkInfo containerID =
     runHooks m postStop c taskInfo frameworkInfo containerID False"

section \<open>hook/hook\_manager.go, second part: the ACL hook\<close>

subsection \<open>The library functions the hook calls\<close>

text \<open>
  \<open>aclHookLabel\<close> is the regular expression \<open>EXECUTOR_(?P<portIndex>[0-9]+)_ACL\<close>,
  not anchored. \<open>FindStringSubmatch\<close> returns the leftmost match as the list of the
  whole match and the group, or nil. At a given start the match is unique: the
  digits are the longest run after \<open>EXECUTOR_\<close>, since \<open>_ACL\<close> must follow them.
\<close>

definition isDigit :: "char \<Rightarrow> bool" where
  "isDigit c = (c \<in> set ''0123456789'')"

fun stripPrefix :: "string \<Rightarrow> string \<Rightarrow> string option" where
  "stripPrefix [] s = Some s"
| "stripPrefix (p # ps) [] = None"
| "stripPrefix (p # ps) (c # cs) = (if p = c then stripPrefix ps cs else None)"

definition aclHookLabel_here :: "string \<Rightarrow> string list option" where
  "aclHookLabel_here s =
     (case stripPrefix ''EXECUTOR_'' s of
        None \<Rightarrow> None
      | Some r \<Rightarrow>
          (let ds = takeWhile isDigit r in
           if ds \<noteq> [] \<and> stripPrefix ''_ACL'' (dropWhile isDigit r) \<noteq> None
           then Some [''EXECUTOR_'' @ ds @ ''_ACL'', ds]
           else None))"

fun FindStringSubmatch :: "string \<Rightarrow> string list option" where
  "FindStringSubmatch [] = aclHookLabel_here []"
| "FindStringSubmatch (c # cs) =
     (case aclHookLabel_here (c # cs) of
        Some m \<Rightarrow> Some m
      | None \<Rightarrow> FindStringSubmatch cs)"

text \<open>
  \<open>strconv.Atoi\<close> on a 64-bit platform, for the strings the code passes: a non-empty
  run of decimal digits, which denotes the number \<open>decimal s\<close>. \<open>Inr n\<close> is the
  value with a nil error; \<open>Inl n\<close> is the value \<open>n\<close> returned together with an
  error: the largest \<open>int\<close> when the number is out of range. Signs are not modelled:
  any other string is a syntax error with value 0.
\<close>

definition digitVal :: "char \<Rightarrow> nat" where
  "digitVal c = of_char c - 48"

definition decimal :: "string \<Rightarrow> nat" where
  "decimal s = foldl (\<lambda>a c. 10 * a + digitVal c) 0 s"

definition Atoi :: "string \<Rightarrow> nat + nat" where
  "Atoi s =
     (if s = [] \<or> \<not> list_all isDigit s then Inl 0
      else (let n = decimal s
            in if n > 9223372036854775807 then Inl 9223372036854775807 else Inr n))"

text \<open>\<open>strconv.Itoa\<close> and the verb \<open>%d\<close>, for a number that is not negative.\<close>

definition digitChar :: "nat \<Rightarrow> char" where
  "digitChar d = ''0123456789'' ! d"

function itoa :: "nat \<Rightarrow> string" where
  "itoa n = (if n < 10 then [digitChar n] else itoa (n div 10) @ [digitChar (n mod 10)])"
  by pat_completeness auto
termination
  by (relation "measure id") auto

declare itoa.simps [simp del]

text \<open>\<open>strings.Split(s, sep)\<close> for a separator of one character.\<close>

fun Split :: "string \<Rightarrow> char \<Rightarrow> string list" where
  "Split [] sep = [[]]"
| "Split (c # cs) sep =
     (if c = sep then [] # Split cs sep
      else (case Split cs sep of [] \<Rightarrow> [[c]] | t # ts \<Rightarrow> (c # t) # ts))"

text \<open>\<open>fmt.Sprintf(aclHookRuleTemplate, a, b, c, d)\<close> with four strings.\<close>

definition aclHookRuleTemplate :: "string \<Rightarrow> string \<Rightarrow> string \<Rightarrow> string \<Rightarrow> string" where
  "aclHookRuleTemplate a b c d =
     ''-i '' @ a @ '' -p '' @ b @ '' -s '' @ c @ '' --dport '' @ d @ '' -j ACCEPT''"

text \<open>
  What the hook reads from its surroundings: the three configuration keys (viper
  returns the empty string, or the empty list, for a key that is not set), and the
  two functions of Go's \<open>net\<close> package, taken as parameters: \<open>ParseIP s\<close> holds when
  \<open>net.ParseIP(s)\<close> is not nil, \<open>ParseCIDR s\<close> when \<open>net.ParseCIDR(s)\<close> returns a nil
  error.
\<close>

record env =
  acl_chain :: string
  acl_external_interface :: string
  acl_default_allowed_cidr :: "string list"
  ParseIP :: "string \<Rightarrow> bool"
  ParseCIDR :: "string \<Rightarrow> bool"

text \<open>
  The packet-filter driver (go-iptables), with the three methods the hook calls.
  Each acts on the environment \<open>'w\<close>.
\<close>

record 'w IPTables =
  ListChains :: "string \<Rightarrow> 'w \<Rightarrow> (error + string list) \<times> 'w"
  Append :: "string \<Rightarrow> string \<Rightarrow> string list \<Rightarrow> 'w \<Rightarrow> error option \<times> 'w"
  Delete :: "string \<Rightarrow> string \<Rightarrow> string list \<Rightarrow> 'w \<Rightarrow> error option \<times> 'w"

subsection \<open>checkChain\<close>

definition checkChain :: "env \<Rightarrow> 'w IPTables \<Rightarrow> 'w \<Rightarrow> (error + string) \<times> 'w" where
  "checkChain e driver s =
     (let aclChain = acl_chain e in
      if aclChain = '''' then (Inl (Errorf ''no iptables chain set for acl hook''), s)
      else if aclChain = ''FORWARD'' \<or> aclChain = ''OUTPUT''
      then (Inl (Errorf ''forward and ouput chains cannot be used for acl injection''), s)
      else (case ListChains driver ''filter'' s of
              (Inl err, s') \<Rightarrow> (Inl err, s')
            | (Inr chains', s') \<Rightarrow>
                if aclChain \<in> set chains' then (Inr aclChain, s')
                else (Inl (Errorf (''Chain '' @ aclChain @ '' does not exists'')), s')))"

subsection \<open>generateACL\<close>

text \<open>The external interface, \<open>all\<close> when the key is not set.\<close>

definition externalInterface :: "env \<Rightarrow> string" where
  "externalInterface e =
     (if acl_external_interface e = '''' then ''all'' else acl_external_interface e)"

text \<open>The loop over \<open>ips\<close> that fills \<open>parsedIPs\<close>.\<close>

fun generateACL_ips :: "env \<Rightarrow> string list \<Rightarrow> string list \<Rightarrow> error + string list" where
  "generateACL_ips e parsedIPs [] = Inr parsedIPs"
| "generateACL_ips e parsedIPs (ip # ips) =
     (if ParseIP e ip then generateACL_ips e (parsedIPs @ [ip @ ''/32'']) ips
      else if ParseCIDR e ip then generateACL_ips e (parsedIPs @ [ip]) ips
      else Inl (Errorf (''Invalid IP: '' @ ip)))"

text \<open>The loop over \<open>parsedIPs\<close> that injects the rules of one label.\<close>

fun generateACL_inject ::
  "string \<Rightarrow> PortMapping \<Rightarrow> string \<Rightarrow> (string \<Rightarrow> string \<Rightarrow> string list \<Rightarrow> 'w \<Rightarrow> error option \<times> 'w)
     \<Rightarrow> bool \<Rightarrow> string list \<Rightarrow> 'w \<Rightarrow> error option \<times> 'w" where
  "generateACL_inject iface portMapping chain action stopOnError [] s = (None, s)"
| "generateACL_inject iface portMapping chain action stopOnError (ip # ips) s =
     (let aclRule = aclHookRuleTemplate iface (GetProtocol portMapping) ip
                      (itoa (unat (GetHostPort portMapping)))
      in case action ''filter'' chain (Split aclRule CHR '' '') s of
           (Some err, s') \<Rightarrow>
             if stopOnError
             then (Some (Errorf (''Error while injecting acl iptables rule: '' @ Error err)), s')
             else generateACL_inject iface portMapping chain action stopOnError ips s'
         | (None, s') \<Rightarrow> generateACL_inject iface portMapping chain action stopOnError ips s')"

text \<open>The loop over the labels of the task.\<close>

fun generateACL_labels ::
  "env \<Rightarrow> PortMapping list \<Rightarrow> string \<Rightarrow> string
     \<Rightarrow> (string \<Rightarrow> string \<Rightarrow> string list \<Rightarrow> 'w \<Rightarrow> error option \<times> 'w)
     \<Rightarrow> bool \<Rightarrow> Label list \<Rightarrow> 'w \<Rightarrow> error option \<times> 'w" where
  "generateACL_labels e portMappings iface chain action stopOnError [] s = (None, s)"
| "generateACL_labels e portMappings iface chain action stopOnError (label # labels) s =
     (case FindStringSubmatch (GetKey label) of
        None \<Rightarrow> generateACL_labels e portMappings iface chain action stopOnError labels s
      | Some match \<Rightarrow>
          if length match > 1 then
            (case Atoi (match ! 1) of
               Inl portIndex \<Rightarrow>
                 (Some (Errorf (''Port index '' @ itoa portIndex @ '' is not valid'')), s)
             | Inr portIndex \<Rightarrow>
                 if length portMappings > portIndex then
                   (let portMapping = portMappings ! portIndex in
                    case generateACL_ips e [] (Split (GetValue label) CHR '','') of
                      Inl err \<Rightarrow> (Some err, s)
                    | Inr parsedIPs \<Rightarrow>
                        (case generateACL_inject iface portMapping chain action stopOnError
                                parsedIPs s of
                           (Some err, s') \<Rightarrow> (Some err, s')
                         | (None, s') \<Rightarrow>
                             generateACL_labels e portMappings iface chain action stopOnError
                               labels s'))
                 else
                   (Some (Errorf (''Port index '' @ itoa portIndex
                            @ '' does not match port mapping definition'')), s))
          else (Some (Errorf ''Could not retrieve port index''), s))"

text \<open>The loops over the default allowed CIDRs and, for each, over the port mappings.\<close>

fun generateACL_default_ports ::
  "string \<Rightarrow> string \<Rightarrow> string \<Rightarrow> (string \<Rightarrow> string \<Rightarrow> string list \<Rightarrow> 'w \<Rightarrow> error option \<times> 'w)
     \<Rightarrow> bool \<Rightarrow> PortMapping list \<Rightarrow> 'w \<Rightarrow> error option \<times> 'w" where
  "generateACL_default_ports iface cidr chain action stopOnError [] s = (None, s)"
| "generateACL_default_ports iface cidr chain action stopOnError (port # ports) s =
     (let aclRule = aclHookRuleTemplate iface (GetProtocol port) cidr
                      (itoa (unat (GetHostPort port)))
      in case action ''filter'' chain (Split aclRule CHR '' '') s of
           (Some err, s') \<Rightarrow>
             if stopOnError
             then (Some (Errorf (''Error while injecting acl iptables rule: '' @ Error err)), s')
             else generateACL_default_ports iface cidr chain action stopOnError ports s'
         | (None, s') \<Rightarrow> generateACL_default_ports iface cidr chain action stopOnError ports s')"

fun generateACL_default ::
  "string \<Rightarrow> PortMapping list \<Rightarrow> string
     \<Rightarrow> (string \<Rightarrow> string \<Rightarrow> string list \<Rightarrow> 'w \<Rightarrow> error option \<times> 'w)
     \<Rightarrow> bool \<Rightarrow> string list \<Rightarrow> 'w \<Rightarrow> error option \<times> 'w" where
  "generateACL_default iface portMappings chain action stopOnError [] s = (None, s)"
| "generateACL_default iface portMappings chain action stopOnError (cidr # cidrs) s =
     (case generateACL_default_ports iface cidr chain action stopOnError portMappings s of
        (Some err, s') \<Rightarrow> (Some err, s')
      | (None, s') \<Rightarrow> generateACL_default iface portMappings chain action stopOnError cidrs s')"

definition generateACL ::
  "env \<Rightarrow> TaskInfo \<Rightarrow> string \<Rightarrow> (string \<Rightarrow> string \<Rightarrow> string list \<Rightarrow> 'w \<Rightarrow> error option \<times> 'w)
     \<Rightarrow> bool \<Rightarrow> 'w \<Rightarrow> error option \<times> 'w" where
  "generateACL e info chain action stopOnError s =
     (let iface = externalInterface e;
          portMappings = GetPortMappings info
      in case generateACL_labels e portMappings iface chain action stopOnError (GetLabels info) s of
           (Some err, s') \<Rightarrow> (Some err, s')
         | (None, s') \<Rightarrow>
             (let defaultAllowedCIDR = acl_default_allowed_cidr e
              in if length defaultAllowedCIDR > 0
                 then generateACL_default iface portMappings chain action stopOnError
                        defaultAllowedCIDR s'
                 else (None, s')))"

subsection \<open>ACLHook\<close>

text \<open>
  \<open>iptables.New()\<close> is a parameter: it returns the driver or an error. The hook has
  the callbacks of post-run and pre-stop only.
\<close>

definition ACLHook :: "env \<Rightarrow> ('w \<Rightarrow> (error + 'w IPTables) \<times> 'w) \<Rightarrow> ('c, 'f, 'w) Hook" where
  "ACLHook e iptables_New =
     \<lparr>Name = ''acl'',
      Priority = 0,
      RunPreCreate = None,
      RunPreRun = None,
      RunPostRun = Some (\<lambda>c taskInfo frameworkInfo containerID s.
        let network = GetNetwork taskInfo in
        if network \<noteq> BRIDGE \<and> network \<noteq> USER then (None, s)
        else (case iptables_New s of
                (Inl err, s') \<Rightarrow> (Some err, s')
              | (Inr driver, s') \<Rightarrow>
                  (case checkChain e driver s' of
                     (Inl err, s'') \<Rightarrow> (Some err, s'')
                   | (Inr chain, s'') \<Rightarrow>
                       generateACL e taskInfo chain (Append driver) True s''))),
      RunPreStop = Some (\<lambda>c taskInfo frameworkInfo containerID s.
        let network = GetNetwork taskInfo in
        if network \<noteq> BRIDGE \<and> network \<noteq> USER then (None, s)
        else (case iptables_New s of
                (Inl err, s') \<Rightarrow> (Some err, s')
              | (Inr driver, s') \<Rightarrow>
                  (case checkChain e driver s' of
                     (Inl err, s'') \<Rightarrow> (Some err, s'')
                   | (Inr chain, s'') \<Rightarrow>
                       generateACL e taskInfo chain (Delete driver) False s''))),
      RunPostStop = None\<rparr>"

section \<open>container/containerd.go\<close>

record 'cl ContainerdContainerizer =
  Client :: 'cl
  Image :: string
  Namespace :: string

text \<open>\<open>ContainerGetPID\<close> returns \<open>-1, nil\<close>: the pair of the pid and the error.\<close>

definition ContainerGetPID :: "'cl ContainerdContainerizer \<Rightarrow> string \<Rightarrow> int \<times> error option" where
  "ContainerGetPID c ident = (-1, None)"

section \<open>Observing calls\<close>

text \<open>
  To state which callbacks a run calls, a hook is wrapped so that each of its
  callbacks, when called, appends the hook's name to a list kept beside the
  environment and otherwise does what the callback does.
\<close>

definition recorded ::
  "string \<Rightarrow> ('w \<Rightarrow> error option \<times> 'w) \<Rightarrow> 'w \<times> string list \<Rightarrow> error option \<times> ('w \<times> string list)" where
  "recorded n run = (\<lambda>(s, calls). case run s of (err, s') \<Rightarrow> (err, (s', calls @ [n])))"

definition recordedHook :: "('c, 'f, 'w) Hook \<Rightarrow> ('c, 'f, 'w \<times> string list) Hook" where
  "recordedHook h =
     \<lparr>Name = Name h, Priority = Priority h,
      RunPreCreate = map_option (\<lambda>run c t f. recorded (Name h) (run c t f)) (RunPreCreate h),
      RunPreRun = map_option (\<lambda>run c t f i. recorded (Name h) (run c t f i)) (RunPreRun h),
      RunPostRun = map_option (\<lambda>run c t f i. recorded (Name h) (run c t f i)) (RunPostRun h),
      RunPreStop = map_option (\<lambda>run c t f i. recorded (Name h) (run c t f i)) (RunPreStop h),
      RunPostStop = map_option (\<lambda>run c t f i. recorded (Name h) (run c t f i)) (RunPostStop h)\<rparr>"

text \<open>
  In the same way an action of the driver is wrapped so that each call appends an
  entry built from its arguments (the table, the chain and the rule specification) to
  a list kept beside the environment; \<open>recordedDriver\<close> wraps the three methods.
\<close>

datatype call =
  ListChainsCall string
| AppendCall string string "string list"
| DeleteCall string string "string list"

definition logged ::
  "(string \<Rightarrow> string \<Rightarrow> string list \<Rightarrow> 'e)
     \<Rightarrow> (string \<Rightarrow> string \<Rightarrow> string list \<Rightarrow> 'w \<Rightarrow> error option \<times> 'w)
     \<Rightarrow> string \<Rightarrow> string \<Rightarrow> string list \<Rightarrow> 'w \<times> 'e list \<Rightarrow> error option \<times> ('w \<times> 'e list)" where
  "logged mk action table chain rulespec =
     (\<lambda>(s, calls). case action table chain rulespec s of
        (err, s') \<Rightarrow> (err, (s', calls @ [mk table chain rulespec])))"

definition recordedDriver :: "'w IPTables \<Rightarrow> ('w \<times> call list) IPTables" where
  "recordedDriver d =
     \<lparr>ListChains = (\<lambda>table (s, calls). case ListChains d table s of
        (r, s') \<Rightarrow> (r, (s', calls @ [ListChainsCall table]))),
      Append = logged AppendCall (Append d),
      Delete = logged DeleteCall (Delete d)\<rparr>"




text \<open>An action that always succeeds, and one that always fails.\<close>

definition succeed :: "string \<Rightarrow> string \<Rightarrow> string list \<Rightarrow> 'w \<Rightarrow> error option \<times> 'w" where
  "succeed table chain rulespec s = (None, s)"

definition refuse :: "string \<Rightarrow> string \<Rightarrow> string list \<Rightarrow> 'w \<Rightarrow> error option \<times> 'w" where
  "refuse table chain rulespec s = (Some (Errorf ''exit status 4''), s)"

section \<open>Definitions for the proofs\<close>

text \<open>
  \<open>prio_ge\<close> is the comparison \<open>sortByPriority\<close> passes as \<open>Less\<close>. \<open>insr x ys\<close>
  describes one run of the inner loop of the insertion sort on the reversed prefix
  \<open>ys\<close>: the new element \<open>x\<close> passes every element that \<open>Less\<close> lets it pass.
\<close>

definition prio_ge :: "('c, 'f, 'w) Hook \<Rightarrow> ('c, 'f, 'w) Hook \<Rightarrow> bool" where
  "prio_ge h1 h2 = (\<not> (Priority h1 < Priority h2))"

fun insr :: "('c, 'f, 'w) Hook \<Rightarrow> ('c, 'f, 'w) Hook list \<Rightarrow> ('c, 'f, 'w) Hook list" where
  "insr x [] = [x]"
| "insr x (y # ys) = (if prio_ge x y then y # insr x ys else x # y # ys)"

text \<open>
  The rules of a task, as a list: \<open>plan\<close> follows \<open>generateACL\<close> without calling any
  action and returns the validation error at which the derivation stops, if any, with
  the entries of the rules derived before it. It is used to compare runs.
\<close>

definition plan_inject ::
  "(string \<Rightarrow> string \<Rightarrow> string list \<Rightarrow> 'e) \<Rightarrow> string \<Rightarrow> PortMapping \<Rightarrow> string \<Rightarrow> string list \<Rightarrow> 'e list" where
  "plan_inject mk iface portMapping chain ips =
     map (\<lambda>ip. mk ''filter'' chain
            (Split (aclHookRuleTemplate iface (GetProtocol portMapping) ip
                      (itoa (unat (GetHostPort portMapping)))) CHR '' '')) ips"

fun plan_labels ::
  "(string \<Rightarrow> string \<Rightarrow> string list \<Rightarrow> 'e) \<Rightarrow> env \<Rightarrow> PortMapping list \<Rightarrow> string \<Rightarrow> string
     \<Rightarrow> Label list \<Rightarrow> error option \<times> 'e list" where
  "plan_labels mk e portMappings iface chain [] = (None, [])"
| "plan_labels mk e portMappings iface chain (label # labels) =
     (case FindStringSubmatch (GetKey label) of
        None \<Rightarrow> plan_labels mk e portMappings iface chain labels
      | Some match \<Rightarrow>
          if length match > 1 then
            (case Atoi (match ! 1) of
               Inl portIndex \<Rightarrow>
                 (Some (Errorf (''Port index '' @ itoa portIndex @ '' is not valid'')), [])
             | Inr portIndex \<Rightarrow>
                 if length portMappings > portIndex then
                   (case generateACL_ips e [] (Split (GetValue label) CHR '','') of
                      Inl err \<Rightarrow> (Some err, [])
                    | Inr parsedIPs \<Rightarrow>
                        (case plan_labels mk e portMappings iface chain labels of
                           (err, calls) \<Rightarrow>
                             (err, plan_inject mk iface (portMappings ! portIndex) chain parsedIPs
                                     @ calls)))
                 else
                   (Some (Errorf (''Port index '' @ itoa portIndex
                            @ '' does not match port mapping definition'')), []))
          else (Some (Errorf ''Could not retrieve port index''), []))"

definition plan_default ::
  "(string \<Rightarrow> string \<Rightarrow> string list \<Rightarrow> 'e) \<Rightarrow> string \<Rightarrow> PortMapping list \<Rightarrow> string \<Rightarrow> string list \<Rightarrow> 'e list" where
  "plan_default mk iface portMappings chain cidrs =
     concat (map (\<lambda>cidr. map (\<lambda>port. mk ''filter'' chain
            (Split (aclHookRuleTemplate iface (GetProtocol port) cidr
                      (itoa (unat (GetHostPort port)))) CHR '' '')) portMappings) cidrs)"

definition plan ::
  "(string \<Rightarrow> string \<Rightarrow> string list \<Rightarrow> 'e) \<Rightarrow> env \<Rightarrow> TaskInfo \<Rightarrow> string \<Rightarrow> error option \<times> 'e list" where
  "plan mk e info chain =
     (case plan_labels mk e (GetPortMappings info) (externalInterface e) chain (GetLabels info) of
        (Some err, calls) \<Rightarrow> (Some err, calls)
      | (None, calls) \<Rightarrow>
          (None, calls @ plan_default mk (externalInterface e) (GetPortMappings info) chain
                           (acl_default_allowed_cidr e)))"

definition injectionError :: "error \<Rightarrow> error" where
  "injectionError err = Errorf (''Error while injecting acl iptables rule: '' @ Error err)"

text \<open>
  \<open>follows stopOnError r l p\<close>: the run result \<open>r\<close>, started with the entries \<open>l\<close>,
  agrees with the plan \<open>p\<close>: it returns the error of the plan after adding all its
  entries, or, when \<open>stopOnError\<close> holds, it returns the error of a failed action
  after adding a prefix of the entries.
\<close>

definition follows ::
  "bool \<Rightarrow> error option \<times> ('w \<times> 'e list) \<Rightarrow> 'e list \<Rightarrow> error option \<times> 'e list \<Rightarrow> bool" where
  "follows stopOnError r l p =
     ((fst r = fst p \<and> snd (snd r) = l @ snd p) \<or>
      (stopOnError \<and>
       (\<exists>err q. fst r = Some (injectionError err) \<and> snd (snd r) = l @ q \<and> prefix q (snd p))))"

section \<open>Examples\<close>

text \<open>
  Hooks for the examples, on an environment that counts the calls made: one whose
  callbacks all succeed, one whose callbacks all fail, one without callbacks.
\<close>

definition countingHook :: "string \<Rightarrow> int \<Rightarrow> (unit, unit, nat) Hook" where
  "countingHook n p =
     \<lparr>Name = n, Priority = p,
      RunPreCreate = Some (\<lambda>c t f s. (None, Suc s)),
      RunPreRun = Some (\<lambda>c t f i s. (None, Suc s)),
      RunPostRun = Some (\<lambda>c t f i s. (None, Suc s)),
      RunPreStop = Some (\<lambda>c t f i s. (None, Suc s)),
      RunPostStop = Some (\<lambda>c t f i s. (None, Suc s))\<rparr>"

definition failingHook :: "string \<Rightarrow> int \<Rightarrow> (unit, unit, nat) Hook" where
  "failingHook n p =
     \<lparr>Name = n, Priority = p,
      RunPreCreate = Some (\<lambda>c t f s. (Some (Errorf (n @ '' failed'')), Suc s)),
      RunPreRun = Some (\<lambda>c t f i s. (Some (Errorf (n @ '' failed'')), Suc s)),
      RunPostRun = Some (\<lambda>c t f i s. (Some (Errorf (n @ '' failed'')), Suc s)),
      RunPreStop = Some (\<lambda>c t f i s. (Some (Errorf (n @ '' failed'')), Suc s)),
      RunPostStop = Some (\<lambda>c t f i s. (Some (Errorf (n @ '' failed'')), Suc s))\<rparr>"

definition plainHook :: "string \<Rightarrow> int \<Rightarrow> (unit, unit, nat) Hook" where
  "plainHook n p =
     \<lparr>Name = n, Priority = p, RunPreCreate = None, RunPreRun = None, RunPostRun = None,
      RunPreStop = None, RunPostStop = None\<rparr>"

text \<open>
  Fourteen hooks of distinct priorities passed in two calls, thirteen of them
  enabled: the second call sorts a slice of thirteen hooks.
\<close>

definition thirteenNames :: "string list" where
  "thirteenNames = [''a'', ''b'', ''c'', ''d'', ''e'', ''f'', ''g'', ''h'', ''i'', ''j'', ''k'', ''l'', ''m'']"

definition thirteenHooks :: "(unit, unit, nat) Hook list list" where
  "thirteenHooks =
     [[plainHook ''a'' 1, plainHook ''x'' 99, plainHook ''b'' 3, plainHook ''c'' 2],
      [plainHook ''d'' 13, plainHook ''e'' 5, plainHook ''f'' 4, plainHook ''g'' 7, plainHook ''h'' 6,
       plainHook ''i'' 9, plainHook ''j'' 8, plainHook ''k'' 11, plainHook ''l'' 10, plainHook ''m'' 12]]"

definition emptyTask :: TaskInfo where
  "emptyTask = \<lparr>GetLabels = [], GetNetwork = HOST, GetPortMappings = []\<rparr>"

text \<open>
  The task and the surroundings of the examples: one port mapping (tcp, host port
  8080), the external interface \<open>eth0\<close>, and parsers that accept the addresses the
  examples use.
\<close>

definition exampleEnv :: "string list \<Rightarrow> env" where
  "exampleEnv cidrs =
     \<lparr>acl_chain = ''ACL'', acl_external_interface = ''eth0'',
      acl_default_allowed_cidr = cidrs,
      ParseIP = (\<lambda>s. s \<in> {''10.0.0.5'', ''10.0.0.6''}),
      ParseCIDR = (\<lambda>s. s \<in> {''10.1.0.0/24'', ''10.2.0.0/16''})\<rparr>"

definition examplePort :: PortMapping where
  "examplePort = \<lparr>GetProtocol = ''tcp'', GetHostPort = 8080\<rparr>"

definition exampleTask :: "(string \<times> string) list \<Rightarrow> PortMapping list \<Rightarrow> TaskInfo" where
  "exampleTask labels ports =
     \<lparr>GetLabels = map (\<lambda>(k, v). \<lparr>GetKey = k, GetValue = v\<rparr>) labels,
      GetNetwork = BRIDGE,
      GetPortMappings = ports\<rparr>"

definition exampleDriver :: "string list \<Rightarrow> unit IPTables" where
  "exampleDriver chs =
     \<lparr>ListChains = (\<lambda>table s. (Inr chs, s)), Append = succeed, Delete = succeed\<rparr>"


section \<open>Properties of the hook manager\<close>

lemmas when_defs = preCreate_def preRun_def postRun_def preStop_def postStop_def

subsection \<open>Insertion sort with the comparison of sortByPriority\<close>

lemma less_by_Swap: "less_by (Swap d i j) = less_by d"
  by (simp add: Swap_def)

lemma inner_insr:
  "hooks d = pre @ x # post \<Longrightarrow> length pre = j \<Longrightarrow> less_by d = prio_ge \<Longrightarrow>
   hooks (insertionSort_inner d 0 j) = rev (insr x (rev pre)) @ post"
proof (induction j arbitrary: d pre post)
  case 0
  then show ?case by simp
next
  case (Suc j)
  then obtain pre' y where pre: "pre = pre' @ [y]" "length pre' = j"
    by (metis length_Suc_conv_rev)
  have nth1: "hooks d ! Suc j = x" using Suc.prems pre by (simp add: nth_append)
  have nth2: "hooks d ! j = y" using Suc.prems pre by (simp add: nth_append)
  show ?case
  proof (cases "prio_ge x y")
    case True
    have sw: "hooks (Swap d (Suc j) j) = pre' @ x # (y # post)"
      using Suc.prems pre nth1 nth2 by (simp add: Swap_def list_update_append)
    have "hooks (insertionSort_inner (Swap d (Suc j) j) 0 j) = rev (insr x (rev pre')) @ y # post"
      using Suc.IH[OF sw pre(2)] Suc.prems(3) by (simp add: less_by_Swap)
    then show ?thesis using True nth1 nth2 Suc.prems(3) pre by (simp add: Less_def)
  next
    case False
    then show ?thesis using nth1 nth2 Suc.prems pre by (simp add: Less_def)
  qed
qed

lemma set_insr: "set (insr x ys) = insert x (set ys)"
  by (induction ys) auto

lemma length_insr: "length (insr x ys) = Suc (length ys)"
  by (induction ys) auto

lemma mset_insr: "mset (insr x ys) = add_mset x (mset ys)"
  by (induction ys) auto

lemma sorted_insr:
  "sorted_wrt (\<lambda>a b. prio_ge b a) ys \<Longrightarrow> sorted_wrt (\<lambda>a b. prio_ge b a) (insr x ys)"
  by (induction ys) (auto simp: set_insr prio_ge_def)

lemma insertionSort_prefix:
  "less_by d = prio_ge \<Longrightarrow> k \<le> length (hooks d) \<Longrightarrow>
   (let d' = foldl (\<lambda>d i. insertionSort_inner d 0 i) d [Suc 0..<k] in
      less_by d' = prio_ge \<and> length (hooks d') = length (hooks d) \<and>
      mset (hooks d') = mset (hooks d) \<and> sorted_wrt prio_ge (take k (hooks d')))"
proof (induction k)
  case 0
  then show ?case by simp
next
  case (Suc k)
  show ?case
  proof (cases "k = 0")
    case True
    then show ?thesis using Suc.prems by (cases "hooks d") (simp_all add: Let_def)
  next
    case False
    define d1 where "d1 = foldl (\<lambda>d i. insertionSort_inner d 0 i) d [Suc 0..<k]"
    have ih: "less_by d1 = prio_ge" "length (hooks d1) = length (hooks d)"
      "mset (hooks d1) = mset (hooks d)" "sorted_wrt prio_ge (take k (hooks d1))"
      using Suc.IH Suc.prems by (simp_all add: Let_def d1_def)
    have klt: "k < length (hooks d1)" using Suc.prems ih by simp
    have split: "hooks d1 = take k (hooks d1) @ (hooks d1 ! k) # drop (Suc k) (hooks d1)"
      using klt by (simp add: id_take_nth_drop)
    have len: "length (take k (hooks d1)) = k" using klt by simp
    define d2 where "d2 = insertionSort_inner d1 0 k"
    have h2: "hooks d2 = rev (insr (hooks d1 ! k) (rev (take k (hooks d1)))) @ drop (Suc k) (hooks d1)"
      unfolding d2_def using inner_insr[OF split len ih(1)] .
    have fold: "foldl (\<lambda>d i. insertionSort_inner d 0 i) d [Suc 0..<Suc k] = d2"
      using False by (simp add: d1_def d2_def)
    have lb: "less_by d2 = prio_ge"
      unfolding d2_def using ih(1) by (induction k arbitrary: d1) (simp_all add: less_by_Swap)
    have tk: "take (Suc k) (hooks d2) = rev (insr (hooks d1 ! k) (rev (take k (hooks d1))))"
      using h2 len by (simp add: length_insr)
    have srt: "sorted_wrt prio_ge (take (Suc k) (hooks d2))"
      unfolding tk using sorted_insr[of "rev (take k (hooks d1))" "hooks d1 ! k"] ih(4)
      by (simp add: sorted_wrt_rev)
    have ms: "mset (hooks d2) = mset (hooks d1)"
    proof -
      have "mset (hooks d2) =
          add_mset (hooks d1 ! k) (mset (take k (hooks d1))) + mset (drop (Suc k) (hooks d1))"
        using h2 by (simp add: mset_insr)
      also have "\<dots> = mset (take k (hooks d1) @ (hooks d1 ! k) # drop (Suc k) (hooks d1))"
        by simp
      finally show ?thesis using split by simp
    qed
    have ln: "length (hooks d2) = length (hooks d1)" using ms by (metis size_mset)
    show ?thesis unfolding Let_def fold using lb srt ms ln ih by simp
  qed
qed

subsection \<open>The loop of runHooks\<close>

lemma runHooks_loop_append:
  "runHooks_loop w c t f i ex (pre @ post) s =
     (case runHooks_loop w c t f i ex pre s of
        (Some e, s') \<Rightarrow> (Some e, s')
      | (None, s') \<Rightarrow> runHooks_loop w c t f i ex post s')"
  by (induction pre arbitrary: s) (auto split: sum.splits option.splits prod.splits)

lemma hookCallback_recorded:
  "hookCallback w (recordedHook h) c t f i =
     (case hookCallback w h c t f i of
        Inl e \<Rightarrow> Inl e
      | Inr None \<Rightarrow> Inr None
      | Inr (Some run) \<Rightarrow> Inr (Some (recorded (Name h) run)))"
  by (auto simp: hookCallback_def recordedHook_def split: option.splits)

lemma teardown_loop:
  assumes cb: "\<And>h. hookCallback w h c t f i = Inr (map_option (\<lambda>run. run c t f i) (sel h))"
  shows "runHooks_loop w c t f i False (map recordedHook hs) (s, l) =
     (None, (foldl (\<lambda>s h. snd (the (sel h) c t f i s)) s (filter (\<lambda>h. sel h \<noteq> None) hs),
             l @ map Name (filter (\<lambda>h. sel h \<noteq> None) hs)))"
proof (induction hs arbitrary: s l)
  case Nil
  then show ?case by simp
next
  case (Cons h hs)
  show ?case
  proof (cases "sel h")
    case None
    then show ?thesis using Cons.IH by (simp add: hookCallback_recorded cb)
  next
    case (Some run)
    obtain err s' where r: "run c t f i s = (err, s')" by (cases "run c t f i s")
    show ?thesis using Some r Cons.IH[of s' "l @ [Name h]"]
      by (cases err) (simp_all add: hookCallback_recorded cb recorded_def)
  qed
qed

lemma cb_preStop:
  "hookCallback preStop h c t f i = Inr (map_option (\<lambda>run. run c t f i) (RunPreStop h))"
  by (cases "RunPreStop h") (simp_all add: hookCallback_def when_defs)

lemma cb_postStop:
  "hookCallback postStop h c t f i = Inr (map_option (\<lambda>run. run c t f i) (RunPostStop h))"
  by (cases "RunPostStop h") (simp_all add: hookCallback_def when_defs)

lemma setup_loop:
  assumes pre: "runHooks_loop w c t f i True (map recordedHook pre) (s, l) = (None, (s1, l1))"
    and cb: "hookCallback w h c t f i = Inr (Some run)"
    and err: "run s1 = (Some e, s2)"
  shows "runHooks_loop w c t f i True (map recordedHook (pre @ h # post)) (s, l) =
     (Some e, (s2, l1 @ [Name h]))"
  using pre cb err by (simp add: runHooks_loop_append hookCallback_recorded recorded_def)

lemma cb_preCreate:
  "RunPreCreate h = Some run \<Longrightarrow> hookCallback preCreate h c t f i = Inr (Some (run c t f))"
  by (simp add: hookCallback_def)

lemma cb_preRun:
  "RunPreRun h = Some run \<Longrightarrow> hookCallback preRun h c t f i = Inr (Some (run c t f i))"
  by (simp add: hookCallback_def when_defs)

lemma cb_postRun:
  "RunPostRun h = Some run \<Longrightarrow> hookCallback postRun h c t f i = Inr (Some (run c t f i))"
  by (simp add: hookCallback_def when_defs)

lemmas hook_eval = RunPreCreateHooks_def RunPreRunHooks_def RunPostRunHooks_def RunPreStopHooks_def
  RunPostStopHooks_def runHooks_def hookCallback_def when_defs recordedHook_def recorded_def
  countingHook_def failingHook_def plainHook_def

subsection \<open>Registration\<close>

lemma Hooks_RegisterHooks_loop:
  "Hooks (RegisterHooks_loop m hks) = Hooks m @ filter (\<lambda>h. Name h \<in> EnabledHooks m) hks
   \<and> EnabledHooks (RegisterHooks_loop m hks) = EnabledHooks m"
  by (induction hks arbitrary: m) auto

lemma insertionSort_sorted:
  assumes lb: "less_by d = prio_ge"
  shows "mset (hooks (insertionSort d 0 (Len d))) = mset (hooks d) \<and>
         sorted_wrt prio_ge (hooks (insertionSort d 0 (Len d)))"
proof -
  have "length (hooks d) \<le> length (hooks d)" by simp
  from insertionSort_prefix[OF lb this]
  have ms: "mset (hooks (insertionSort d 0 (Len d))) = mset (hooks d)"
    and ln: "length (hooks (insertionSort d 0 (Len d))) = length (hooks d)"
    and st: "sorted_wrt prio_ge (take (length (hooks d)) (hooks (insertionSort d 0 (Len d))))"
    by (auto simp: insertionSort_def Len_def Let_def)
  from st ln have "sorted_wrt prio_ge (hooks (insertionSort d 0 (Len d)))" by simp
  with ms show ?thesis by simp
qed

lemma sortByPriority_sorted:
  assumes lib: "\<And>data. less_by data = (\<lambda>h1 h2. \<not> (Priority h1 < Priority h2)) \<Longrightarrow> 12 < Len data \<Longrightarrow>
      mset (hooks (pdqsort data)) = mset (hooks data) \<and>
      sorted_wrt (\<lambda>h1 h2. Priority h1 \<ge> Priority h2) (hooks (pdqsort data))"
  shows "mset (Hooks (sortByPriority pdqsort m)) = mset (Hooks m) \<and>
   sorted_wrt prio_ge (Hooks (sortByPriority pdqsort m)) \<and>
   EnabledHooks (sortByPriority pdqsort m) = EnabledHooks m"
proof -
  define d where "d = \<lparr>hooks = Hooks m, less_by = (\<lambda>h1 h2. \<not> (Priority h1 < Priority h2))\<rparr>"
  have lb: "less_by d = prio_ge" by (auto simp: d_def prio_ge_def fun_eq_iff)
  have lb': "less_by d = (\<lambda>h1 h2. \<not> (Priority h1 < Priority h2))" by (simp add: d_def)
  have ge: "prio_ge = (\<lambda>h1 h2. Priority h1 \<ge> Priority h2)"
    by (auto simp: prio_ge_def fun_eq_iff)
  have "mset (hooks (sort_Sort pdqsort d)) = mset (hooks d) \<and>
        sorted_wrt prio_ge (hooks (sort_Sort pdqsort d))"
  proof (cases "Len d \<le> 12")
    case True
    then show ?thesis using insertionSort_sorted[OF lb] by (simp add: sort_Sort_def Let_def)
  next
    case False
    then have "12 < Len d" by simp
    from lib[OF lb' this] False show ?thesis by (simp add: sort_Sort_def Let_def ge)
  qed
  moreover have "hooks d = Hooks m" by (simp add: d_def)
  ultimately show ?thesis
    by (simp add: sortByPriority_def Manager_sort_def Let_def d_def[symmetric])
qed

lemma RegisterHooks_step:
  assumes lib: "\<And>data. less_by data = (\<lambda>h1 h2. \<not> (Priority h1 < Priority h2)) \<Longrightarrow> 12 < Len data \<Longrightarrow>
      mset (hooks (pdqsort data)) = mset (hooks data) \<and>
      sorted_wrt (\<lambda>h1 h2. Priority h1 \<ge> Priority h2) (hooks (pdqsort data))"
  shows "mset (Hooks (RegisterHooks pdqsort m hks)) =
       mset (Hooks m) + mset (filter (\<lambda>h. Name h \<in> EnabledHooks m) hks) \<and>
   sorted_wrt prio_ge (Hooks (RegisterHooks pdqsort m hks)) \<and>
   EnabledHooks (RegisterHooks pdqsort m hks) = EnabledHooks m"
  by (simp add: RegisterHooks_def sortByPriority_sorted[of pdqsort, OF lib] Hooks_RegisterHooks_loop)

lemma RegisterHooks_calls:
  assumes lib: "\<And>data. less_by data = (\<lambda>h1 h2. \<not> (Priority h1 < Priority h2)) \<Longrightarrow> 12 < Len data \<Longrightarrow>
      mset (hooks (pdqsort data)) = mset (hooks data) \<and>
      sorted_wrt (\<lambda>h1 h2. Priority h1 \<ge> Priority h2) (hooks (pdqsort data))"
  shows "mset (Hooks (foldl (RegisterHooks pdqsort) m calls)) =
     mset (Hooks m) + mset (filter (\<lambda>h. Name h \<in> EnabledHooks m) (concat calls)) \<and>
   EnabledHooks (foldl (RegisterHooks pdqsort) m calls) = EnabledHooks m"
  by (induction calls arbitrary: m) (simp_all add: RegisterHooks_step[of pdqsort, OF lib])

lemma RegisterHooks_calls_sorted:
  assumes lib: "\<And>data. less_by data = (\<lambda>h1 h2. \<not> (Priority h1 < Priority h2)) \<Longrightarrow> 12 < Len data \<Longrightarrow>
      mset (hooks (pdqsort data)) = mset (hooks data) \<and>
      sorted_wrt (\<lambda>h1 h2. Priority h1 \<ge> Priority h2) (hooks (pdqsort data))"
  shows "sorted_wrt prio_ge (Hooks m) \<Longrightarrow>
     sorted_wrt prio_ge (Hooks (foldl (RegisterHooks pdqsort) m calls))"
  by (induction calls arbitrary: m) (simp_all add: RegisterHooks_step[of pdqsort, OF lib])

text \<open>The insertion sort itself meets the condition put on the library's long path.\<close>

lemma insertionSort_as_pdqsort:
  "less_by data = (\<lambda>h1 h2. \<not> (Priority h1 < Priority h2)) \<Longrightarrow>
     mset (hooks (insertionSort data 0 (Len data))) = mset (hooks data) \<and>
     sorted_wrt (\<lambda>h1 h2. Priority h1 \<ge> Priority h2) (hooks (insertionSort data 0 (Len data)))"
proof -
  assume a: "less_by data = (\<lambda>h1 h2. \<not> (Priority h1 < Priority h2))"
  have ge: "prio_ge = (\<lambda>h1 h2. Priority h1 \<ge> Priority h2)"
    by (auto simp: prio_ge_def fun_eq_iff)
  have "less_by data = prio_ge" using a by (auto simp: prio_ge_def fun_eq_iff)
  from insertionSort_sorted[OF this] show ?thesis by (simp add: ge)
qed

text \<open>
  Two hooks of priority 0 registered in one call: the list has two elements, so the
  result does not depend on the library's long path.
\<close>

lemma two_equal_priorities:
  "map Name (Hooks (RegisterHooks pdqsort (NewManager [''a'', ''b''])
      [plainHook ''a'' 0, plainHook ''b'' 0])) = [''b'', ''a'']"
  by (simp add: RegisterHooks_def sortByPriority_def Manager_sort_def sort_Sort_def
      insertionSort_def Len_def Less_def Swap_def NewManager_def Let_def plainHook_def)

lemmas sort_eval = RegisterHooks_def sortByPriority_def Manager_sort_def sort_Sort_def
  insertionSort_def Len_def Less_def Swap_def NewManager_def Let_def

section \<open>Properties of generateACL\<close>

subsection \<open>Runs with recorded actions follow the plan\<close>

lemma follows_stop: "follows b (Some e, st) l (None, p1) \<Longrightarrow> follows b (Some e, st) l (x, p1 @ p2)"
  by (auto simp: follows_def prefix_def)

lemma follows_continue: "follows b (None, (s1, l1)) l (None, p1) \<Longrightarrow> l1 = l @ p1"
  by (auto simp: follows_def)

lemma follows_shift: "follows b r (l @ p1) (x, p2) \<Longrightarrow> follows b r l (x, p1 @ p2)"
  by (auto simp: follows_def)

lemma follows_refl: "follows b (x, (s, l)) l (x, [])"
  by (simp add: follows_def)

lemma follows_fail:
  "b \<Longrightarrow> follows b (Some (injectionError e), (s', l @ [x])) l (y, x # p)"
  unfolding follows_def
  by (intro disjI2 conjI exI[of _ e] exI[of _ "[x]"]) simp_all

lemma logged_step:
  "action table chain rulespec s = (err, s') \<Longrightarrow>
   logged mk action table chain rulespec (s, l) = (err, (s', l @ [mk table chain rulespec]))"
  by (simp add: logged_def)

lemma follows_inject:
  "follows b (generateACL_inject iface pm chain (logged mk act) b ips (s, l)) l
     (None, plan_inject mk iface pm chain ips)"
proof (induction ips arbitrary: s l)
  case Nil
  then show ?case by (simp add: follows_def plan_inject_def)
next
  case (Cons ip ips)
  let ?spec = "Split (aclHookRuleTemplate iface (GetProtocol pm) ip (itoa (unat (GetHostPort pm)))) CHR '' ''"
  obtain err s' where a: "act ''filter'' chain ?spec s = (err, s')"
    by (cases "act ''filter'' chain ?spec s")
  have st: "logged mk act ''filter'' chain ?spec (s, l) = (err, (s', l @ [mk ''filter'' chain ?spec]))"
    using a by (simp add: logged_def)
  have cont: "follows b (generateACL_inject iface pm chain (logged mk act) b ips (s', l @ [mk ''filter'' chain ?spec])) l
     (None, plan_inject mk iface pm chain (ip # ips))"
    using follows_shift[OF Cons.IH[of s' "l @ [mk ''filter'' chain ?spec]"]]
    by (simp add: plan_inject_def)
  show ?case
  proof (cases err)
    case None
    then show ?thesis using st cont by (simp add: Let_def)
  next
    case (Some e)
    show ?thesis
    proof (cases b)
      case True
      then have "generateACL_inject iface pm chain (logged mk act) b (ip # ips) (s, l) =
          (Some (injectionError e), (s', l @ [mk ''filter'' chain ?spec]))"
        using st Some by (simp add: Let_def injectionError_def)
      then show ?thesis using True by (simp add: plan_inject_def follows_fail)
    next
      case False
      then show ?thesis using st Some cont by (simp add: Let_def)
    qed
  qed
qed

lemma follows_default_ports:
  "follows b (generateACL_default_ports iface cidr chain (logged mk act) b ports (s, l)) l
     (None, map (\<lambda>port. mk ''filter'' chain
            (Split (aclHookRuleTemplate iface (GetProtocol port) cidr
                      (itoa (unat (GetHostPort port)))) CHR '' '')) ports)"
proof (induction ports arbitrary: s l)
  case Nil
  then show ?case by (simp add: follows_def)
next
  case (Cons port ports)
  let ?spec = "Split (aclHookRuleTemplate iface (GetProtocol port) cidr (itoa (unat (GetHostPort port)))) CHR '' ''"
  obtain err s' where a: "act ''filter'' chain ?spec s = (err, s')"
    by (cases "act ''filter'' chain ?spec s")
  have st: "logged mk act ''filter'' chain ?spec (s, l) = (err, (s', l @ [mk ''filter'' chain ?spec]))"
    using a by (simp add: logged_def)
  have cont: "follows b (generateACL_default_ports iface cidr chain (logged mk act) b ports (s', l @ [mk ''filter'' chain ?spec])) l
     (None, map (\<lambda>port. mk ''filter'' chain
            (Split (aclHookRuleTemplate iface (GetProtocol port) cidr
                      (itoa (unat (GetHostPort port)))) CHR '' '')) (port # ports))"
    using follows_shift[OF Cons.IH[of s' "l @ [mk ''filter'' chain ?spec]"]]
    by simp
  show ?case
  proof (cases err)
    case None
    then show ?thesis using st cont by (simp add: Let_def)
  next
    case (Some e)
    show ?thesis
    proof (cases b)
      case True
      then have "generateACL_default_ports iface cidr chain (logged mk act) b (port # ports) (s, l) =
          (Some (injectionError e), (s', l @ [mk ''filter'' chain ?spec]))"
        using st Some by (simp add: Let_def injectionError_def)
      then show ?thesis using True by (simp add: follows_fail)
    next
      case False
      then show ?thesis using st Some cont by (simp add: Let_def)
    qed
  qed
qed

lemma follows_default:
  "follows b (generateACL_default iface pms chain (logged mk act) b cidrs (s, l)) l
     (None, plan_default mk iface pms chain cidrs)"
proof (induction cidrs arbitrary: s l)
  case Nil
  then show ?case by (simp add: follows_def plan_default_def)
next
  case (Cons cidr cidrs)
  let ?p1 = "map (\<lambda>port. mk ''filter'' chain
            (Split (aclHookRuleTemplate iface (GetProtocol port) cidr
                      (itoa (unat (GetHostPort port)))) CHR '' '')) pms"
  have pd: "plan_default mk iface pms chain (cidr # cidrs) = ?p1 @ plan_default mk iface pms chain cidrs"
    by (simp add: plan_default_def)
  obtain x s1 l1 where r1: "generateACL_default_ports iface cidr chain (logged mk act) b pms (s, l) = (x, (s1, l1))"
    by (metis surj_pair)
  have f1: "follows b (x, (s1, l1)) l (None, ?p1)"
    using follows_default_ports[of b iface cidr chain mk act pms s l] r1 by simp
  show ?case
  proof (cases x)
    case None
    with f1 have "l1 = l @ ?p1" by (simp add: follows_continue)
    then show ?thesis using r1 None follows_shift[OF Cons.IH[of s1 "l @ ?p1"]] by (simp add: pd)
  next
    case (Some e)
    then show ?thesis using r1 f1 follows_stop[of b e "(s1, l1)" l ?p1 None] by (simp add: pd)
  qed
qed

lemma follows_labels:
  "follows b (generateACL_labels e pms iface chain (logged mk act) b labels (s, l)) l
     (plan_labels mk e pms iface chain labels)"
proof (induction labels arbitrary: s l)
  case Nil
  then show ?case by (simp add: follows_def)
next
  case (Cons label labels)
  show ?case
  proof (cases "FindStringSubmatch (GetKey label)")
    case None
    then show ?thesis using Cons.IH by simp
  next
    case (Some match)
    show ?thesis
    proof (cases "length match > 1")
      case False
      then show ?thesis using Some by (simp add: follows_def)
    next
      case True
      show ?thesis
      proof (cases "Atoi (match ! 1)")
        case (Inl n)
        then show ?thesis using Some True by (simp add: follows_def)
      next
        case (Inr n)
        show ?thesis
        proof (cases "length pms > n")
          case False
          then show ?thesis using Some True Inr by (simp add: follows_def)
        next
          case inrange: True
          show ?thesis
          proof (cases "generateACL_ips e [] (Split (GetValue label) CHR '','')")
            case (Inl err)
            then show ?thesis using Some True Inr inrange by (simp add: follows_def)
          next
            case ips: (Inr parsedIPs)
            let ?p1 = "plan_inject mk iface (pms ! n) chain parsedIPs"
            obtain x s1 l1 where r1:
              "generateACL_inject iface (pms ! n) chain (logged mk act) b parsedIPs (s, l) = (x, (s1, l1))"
              by (metis surj_pair)
            have f1: "follows b (x, (s1, l1)) l (None, ?p1)"
              using follows_inject[of b iface "pms ! n" chain mk act parsedIPs s l] r1 by simp
            obtain y q where pl: "plan_labels mk e pms iface chain labels = (y, q)"
              by (cases "plan_labels mk e pms iface chain labels")
            have pl': "plan_labels mk e pms iface chain (label # labels) = (y, ?p1 @ q)"
              using Some True Inr inrange ips pl by simp
            show ?thesis
            proof (cases x)
              case None
              with f1 have "l1 = l @ ?p1" by (simp add: follows_continue)
              then show ?thesis
                using Some True Inr inrange ips r1 None pl
                  follows_shift[of b _ l ?p1 y q] Cons.IH[of s1 "l @ ?p1"]
                by (simp add: pl' del: plan_labels.simps)
            next
              case (Some err)
              then show ?thesis
                using \<open>FindStringSubmatch (GetKey label) = Some match\<close> True Inr inrange ips r1 f1
                  follows_stop[of b err "(s1, l1)" l ?p1 y q]
                by (simp add: pl' del: plan_labels.simps)
            qed
          qed
        qed
      qed
    qed
  qed
qed

lemma follows_generateACL:
  "follows b (generateACL e info chain (logged mk act) b (s, l)) l (plan mk e info chain)"
proof -
  let ?pl = "plan_labels mk e (GetPortMappings info) (externalInterface e) chain (GetLabels info)"
  obtain x s1 l1 where r1:
    "generateACL_labels e (GetPortMappings info) (externalInterface e) chain (logged mk act) b
       (GetLabels info) (s, l) = (x, (s1, l1))"
    by (metis surj_pair)
  obtain y q where pl: "?pl = (y, q)" by (cases ?pl)
  have f1: "follows b (x, (s1, l1)) l (y, q)"
    using follows_labels[of b e "GetPortMappings info" "externalInterface e" chain mk act "GetLabels info" s l] r1 pl
    by simp
  let ?pd = "plan_default mk (externalInterface e) (GetPortMappings info) chain (acl_default_allowed_cidr e)"
  show ?thesis
  proof (cases x)
    case (Some err)
    show ?thesis
    proof (cases y)
      case None
      then show ?thesis using Some r1 pl f1 follows_stop[of b err "(s1, l1)" l q None ?pd]
        by (simp add: generateACL_def plan_def Let_def)
    next
      case (Some err')
      then show ?thesis using \<open>x = Some err\<close> r1 pl f1
        by (simp add: generateACL_def plan_def Let_def)
    qed
  next
    case None
    then have y: "y = None" using f1 by (auto simp: follows_def)
    with None f1 have l1: "l1 = l @ q" by (simp add: follows_continue)
    show ?thesis
    proof (cases "acl_default_allowed_cidr e")
      case Nil
      then show ?thesis using None y r1 pl l1
        by (simp add: generateACL_def plan_def Let_def follows_def plan_default_def)
    next
      case (Cons c cs)
      then show ?thesis using None y r1 pl l1
          follows_shift[OF follows_default[of b "externalInterface e" "GetPortMappings info" chain mk act
              "acl_default_allowed_cidr e" s1 "l @ q"]]
        by (simp add: generateACL_def plan_def Let_def)
    qed
  qed
qed

subsection \<open>Retraction, and runs in which every action succeeds\<close>

lemma follows_False:
  "follows False r l p \<Longrightarrow> fst r = fst p \<and> snd (snd r) = l @ snd p"
  by (simp add: follows_def)

lemma inject_succeed:
  "generateACL_inject iface pm chain (logged mk succeed) True ips x =
   generateACL_inject iface pm chain (logged mk succeed) False ips x"
  by (induction ips arbitrary: x) (simp_all add: logged_def succeed_def Let_def split: prod.splits)

lemma default_ports_succeed:
  "generateACL_default_ports iface cidr chain (logged mk succeed) True ports x =
   generateACL_default_ports iface cidr chain (logged mk succeed) False ports x"
  by (induction ports arbitrary: x) (simp_all add: logged_def succeed_def Let_def split: prod.splits)

lemma default_succeed:
  "generateACL_default iface pms chain (logged mk succeed) True cidrs x =
   generateACL_default iface pms chain (logged mk succeed) False cidrs x"
  by (induction cidrs arbitrary: x) (simp_all add: default_ports_succeed split: prod.splits option.splits)

lemma labels_succeed:
  "generateACL_labels e pms iface chain (logged mk succeed) True labels x =
   generateACL_labels e pms iface chain (logged mk succeed) False labels x"
  by (induction labels arbitrary: x)
    (simp_all add: inject_succeed Let_def split: prod.splits option.splits sum.splits)

lemma generateACL_succeed:
  "generateACL e info chain (logged mk succeed) True x =
   generateACL e info chain (logged mk succeed) False x"
  by (simp add: generateACL_def labels_succeed default_succeed Let_def split: prod.splits option.splits)

lemma retraction_plan:
  "fst (generateACL e info chain (logged mk act) False (s, l)) = fst (plan mk e info chain) \<and>
   snd (snd (generateACL e info chain (logged mk act) False (s, l))) = l @ snd (plan mk e info chain)"
  using follows_generateACL[of False e info chain mk act s l] by (rule follows_False)

subsection \<open>The label loop, the label pattern and the hook\<close>

lemma generateACL_labels_append:
  "generateACL_labels e pms iface chain action b (pre @ post) s =
     (case generateACL_labels e pms iface chain action b pre s of
        (Some err, s') \<Rightarrow> (Some err, s')
      | (None, s') \<Rightarrow> generateACL_labels e pms iface chain action b post s')"
  by (induction pre arbitrary: s)
    (simp_all add: Let_def split: prod.splits option.splits sum.splits)

lemma aclHookLabel_here_length: "aclHookLabel_here s = Some m \<Longrightarrow> length m = 2"
  by (auto simp: aclHookLabel_here_def Let_def split: option.splits if_splits)

lemma FindStringSubmatch_length: "FindStringSubmatch s = Some m \<Longrightarrow> length m = 2"
  by (induction s) (auto simp: aclHookLabel_here_length split: option.splits)

lemma aclHookLabel_here_digits:
  "aclHookLabel_here s = Some m \<Longrightarrow> m ! 1 \<noteq> [] \<and> list_all isDigit (m ! 1)"
  by (auto simp: aclHookLabel_here_def Let_def list_all_iff dest: set_takeWhileD
      split: option.splits if_splits)

lemma FindStringSubmatch_digits:
  "FindStringSubmatch s = Some m \<Longrightarrow> m ! 1 \<noteq> [] \<and> list_all isDigit (m ! 1)"
  by (induction s) (auto dest!: aclHookLabel_here_digits split: option.splits)

lemma Atoi_digits:
  "ds \<noteq> [] \<Longrightarrow> list_all isDigit ds \<Longrightarrow>
   Atoi ds = (if decimal ds > 9223372036854775807 then Inl 9223372036854775807 else Inr (decimal ds))"
  by (simp add: Atoi_def Let_def)

lemma checkChain_chain: "checkChain e driver s = (Inr chain, s') \<Longrightarrow> chain = acl_chain e"
  by (auto simp: checkChain_def Let_def split: if_splits prod.splits sum.splits)

lemma ACLHook_RunPostRun:
  assumes "GetNetwork info = BRIDGE \<or> GetNetwork info = USER"
    and "iptables_New s = (Inr driver, s1)"
    and "checkChain e driver s1 = (Inr chain, s2)"
  shows "RunPostRun (ACLHook e iptables_New) = Some run \<Longrightarrow>
     run c info f i s = generateACL e info (acl_chain e) (Append driver) True s2"
  using assms checkChain_chain[OF assms(3)] by (auto simp: ACLHook_def Let_def)

lemma ACLHook_RunPreStop:
  assumes "GetNetwork info = BRIDGE \<or> GetNetwork info = USER"
    and "iptables_New s = (Inr driver, s1)"
    and "checkChain e driver s1 = (Inr chain, s2)"
  shows "RunPreStop (ACLHook e iptables_New) = Some run \<Longrightarrow>
     run c info f i s = generateACL e info (acl_chain e) (Delete driver) False s2"
  using assms checkChain_chain[OF assms(3)] by (auto simp: ACLHook_def Let_def)

lemma ACLHook_not_bridged:
  assumes "GetNetwork info \<noteq> BRIDGE" "GetNetwork info \<noteq> USER"
  shows "RunPostRun (ACLHook e iptables_New) = Some run \<Longrightarrow> run c info f i s = (None, s)"
    and "RunPreStop (ACLHook e iptables_New) = Some run' \<Longrightarrow> run' c info f i s = (None, s)"
  using assms by (auto simp: ACLHook_def Let_def)

subsection \<open>The hook with a recorded driver\<close>
















lemmas acl_eval = generateACL_def externalInterface_def aclHookLabel_here_def isDigit_def Atoi_def
  decimal_def digitVal_def itoa.simps digitChar_def aclHookRuleTemplate_def logged_def succeed_def refuse_def
  exampleEnv_def exampleTask_def examplePort_def recordedDriver_def Let_def


section \<open>The claims about the hook manager\<close>

text \<open>
  C1. Whatever hooks are registered, in each setup phase (pre-create, pre-run, post-run)
  the run stops at the first hook whose callback returns an error. With the registered
  list \<open>pre @ h # post\<close>, if the hooks of \<open>pre\<close> run without error and leave the
  environment \<open>s1\<close> and the calls \<open>l1\<close>, and the callback of \<open>h\<close> returns the error
  \<open>e\<close> and the environment \<open>s2\<close>, then the entry point returns \<open>e\<close>, the environment
  is \<open>s2\<close> and the calls made are \<open>l1\<close> followed by the call of \<open>h\<close>: no hook of
  \<open>post\<close> is called.
\<close>

theorem setup_phase_stops_at_first_error:
  "(RunPreCreateHooks \<lparr>EnabledHooks = en, Hooks = map recordedHook pre\<rparr> c t f (s, []) = (None, m1, (s1, l1))
      \<and> RunPreCreate h = Some run \<and> run c t f s1 = (Some e, s2)
    \<longrightarrow> RunPreCreateHooks \<lparr>EnabledHooks = en, Hooks = map recordedHook (pre @ h # post)\<rparr> c t f (s, [])
          = (Some e, \<lparr>EnabledHooks = en, Hooks = map recordedHook (pre @ h # post)\<rparr>, (s2, l1 @ [Name h])))
   \<and> (RunPreRunHooks \<lparr>EnabledHooks = en, Hooks = map recordedHook pre\<rparr> c t f i (s, []) = (None, m1, (s1, l1))
      \<and> RunPreRun h = Some run' \<and> run' c t f i s1 = (Some e, s2)
    \<longrightarrow> RunPreRunHooks \<lparr>EnabledHooks = en, Hooks = map recordedHook (pre @ h # post)\<rparr> c t f i (s, [])
          = (Some e, \<lparr>EnabledHooks = en, Hooks = map recordedHook (pre @ h # post)\<rparr>, (s2, l1 @ [Name h])))
   \<and> (RunPostRunHooks \<lparr>EnabledHooks = en, Hooks = map recordedHook pre\<rparr> c t f i (s, []) = (None, m1, (s1, l1))
      \<and> RunPostRun h = Some run' \<and> run' c t f i s1 = (Some e, s2)
    \<longrightarrow> RunPostRunHooks \<lparr>EnabledHooks = en, Hooks = map recordedHook (pre @ h # post)\<rparr> c t f i (s, [])
          = (Some e, \<lparr>EnabledHooks = en, Hooks = map recordedHook (pre @ h # post)\<rparr>, (s2, l1 @ [Name h])))"
proof (intro conjI impI)
  assume a: "RunPreCreateHooks \<lparr>EnabledHooks = en, Hooks = map recordedHook pre\<rparr> c t f (s, []) = (None, m1, (s1, l1))
      \<and> RunPreCreate h = Some run \<and> run c t f s1 = (Some e, s2)"
  then have "runHooks_loop preCreate c t f '''' True (map recordedHook pre) (s, []) = (None, (s1, l1))"
    by (auto simp: RunPreCreateHooks_def runHooks_def split: prod.splits)
  from setup_loop[OF this cb_preCreate, of h run e s2 post] a
  show "RunPreCreateHooks \<lparr>EnabledHooks = en, Hooks = map recordedHook (pre @ h # post)\<rparr> c t f (s, [])
          = (Some e, \<lparr>EnabledHooks = en, Hooks = map recordedHook (pre @ h # post)\<rparr>, (s2, l1 @ [Name h]))"
    by (simp add: RunPreCreateHooks_def runHooks_def)
next
  assume a: "RunPreRunHooks \<lparr>EnabledHooks = en, Hooks = map recordedHook pre\<rparr> c t f i (s, []) = (None, m1, (s1, l1))
      \<and> RunPreRun h = Some run' \<and> run' c t f i s1 = (Some e, s2)"
  then have "runHooks_loop preRun c t f i True (map recordedHook pre) (s, []) = (None, (s1, l1))"
    by (auto simp: RunPreRunHooks_def runHooks_def split: prod.splits)
  from setup_loop[OF this cb_preRun, of h run' e s2 post] a
  show "RunPreRunHooks \<lparr>EnabledHooks = en, Hooks = map recordedHook (pre @ h # post)\<rparr> c t f i (s, [])
          = (Some e, \<lparr>EnabledHooks = en, Hooks = map recordedHook (pre @ h # post)\<rparr>, (s2, l1 @ [Name h]))"
    by (simp add: RunPreRunHooks_def runHooks_def)
next
  assume a: "RunPostRunHooks \<lparr>EnabledHooks = en, Hooks = map recordedHook pre\<rparr> c t f i (s, []) = (None, m1, (s1, l1))
      \<and> RunPostRun h = Some run' \<and> run' c t f i s1 = (Some e, s2)"
  then have "runHooks_loop postRun c t f i True (map recordedHook pre) (s, []) = (None, (s1, l1))"
    by (auto simp: RunPostRunHooks_def runHooks_def split: prod.splits)
  from setup_loop[OF this cb_postRun, of h run' e s2 post] a
  show "RunPostRunHooks \<lparr>EnabledHooks = en, Hooks = map recordedHook (pre @ h # post)\<rparr> c t f i (s, [])
          = (Some e, \<lparr>EnabledHooks = en, Hooks = map recordedHook (pre @ h # post)\<rparr>, (s2, l1 @ [Name h]))"
    by (simp add: RunPostRunHooks_def runHooks_def)
qed

theorem setup_phase_stops_at_first_error_witness:
  "RunPreCreateHooks \<lparr>EnabledHooks = {''h0'', ''h1'', ''h2'', ''h3''},
       Hooks = map recordedHook ([countingHook ''h0'' 4] @ failingHook ''h1'' 3 # [countingHook ''h2'' 2, countingHook ''h3'' 1])\<rparr>
       () emptyTask () (0, [])
     = (Some (Errorf ''h1 failed''),
        \<lparr>EnabledHooks = {''h0'', ''h1'', ''h2'', ''h3''},
         Hooks = map recordedHook ([countingHook ''h0'' 4] @ failingHook ''h1'' 3 # [countingHook ''h2'' 2, countingHook ''h3'' 1])\<rparr>,
        (2, [''h0''] @ [Name (failingHook ''h1'' 3)]))
  \<and> RunPreRunHooks \<lparr>EnabledHooks = {''h0'', ''h1'', ''h2'', ''h3''},
       Hooks = map recordedHook ([countingHook ''h0'' 4] @ failingHook ''h1'' 3 # [countingHook ''h2'' 2, countingHook ''h3'' 1])\<rparr>
       () emptyTask () ''id'' (0, [])
     = (Some (Errorf ''h1 failed''),
        \<lparr>EnabledHooks = {''h0'', ''h1'', ''h2'', ''h3''},
         Hooks = map recordedHook ([countingHook ''h0'' 4] @ failingHook ''h1'' 3 # [countingHook ''h2'' 2, countingHook ''h3'' 1])\<rparr>,
        (2, [''h0''] @ [Name (failingHook ''h1'' 3)]))
  \<and> RunPostRunHooks \<lparr>EnabledHooks = {''h0'', ''h1'', ''h2'', ''h3''},
       Hooks = map recordedHook ([countingHook ''h0'' 4] @ failingHook ''h1'' 3 # [countingHook ''h2'' 2, countingHook ''h3'' 1])\<rparr>
       () emptyTask () ''id'' (0, [])
     = (Some (Errorf ''h1 failed''),
        \<lparr>EnabledHooks = {''h0'', ''h1'', ''h2'', ''h3''},
         Hooks = map recordedHook ([countingHook ''h0'' 4] @ failingHook ''h1'' 3 # [countingHook ''h2'' 2, countingHook ''h3'' 1])\<rparr>,
        (2, [''h0''] @ [Name (failingHook ''h1'' 3)]))"
proof -
  let ?m1 = "\<lparr>EnabledHooks = {''h0'', ''h1'', ''h2'', ''h3''}, Hooks = map recordedHook [countingHook ''h0'' 4]\<rparr>"
  have p1: "RunPreCreateHooks ?m1 () emptyTask () (0, []) = (None, ?m1, (Suc 0, [''h0'']))"
    by (simp add: hook_eval)
  have p2: "RunPreRunHooks ?m1 () emptyTask () ''id'' (0, []) = (None, ?m1, (Suc 0, [''h0'']))"
    by (simp add: hook_eval)
  have p3: "RunPostRunHooks ?m1 () emptyTask () ''id'' (0, []) = (None, ?m1, (Suc 0, [''h0'']))"
    by (simp add: hook_eval)
  have r1: "RunPreCreate (failingHook ''h1'' 3) = Some (\<lambda>c t f s. (Some (Errorf (''h1'' @ '' failed'')), Suc s))"
    by (simp add: failingHook_def)
  have r2: "RunPreRun (failingHook ''h1'' 3) = Some (\<lambda>c t f i s. (Some (Errorf (''h1'' @ '' failed'')), Suc s))"
    by (simp add: failingHook_def)
  have r3: "RunPostRun (failingHook ''h1'' 3) = Some (\<lambda>c t f i s. (Some (Errorf (''h1'' @ '' failed'')), Suc s))"
    by (simp add: failingHook_def)
  show ?thesis
    using setup_phase_stops_at_first_error[of "{''h0'', ''h1'', ''h2'', ''h3''}" "[countingHook ''h0'' 4]"
        "()" emptyTask "()" 0 ?m1 "Suc 0" "[''h0'']" "failingHook ''h1'' 3"
        "\<lambda>c t f s. (Some (Errorf (''h1'' @ '' failed'')), Suc s)" "Errorf ''h1 failed''" 2
        "[countingHook ''h2'' 2, countingHook ''h3'' 1]" "''id''"
        "\<lambda>c t f i s. (Some (Errorf (''h1'' @ '' failed'')), Suc s)"]
      p1 p2 p3 r1 r2 r3
    by simp
qed

text \<open>
  C2. In each teardown phase (pre-stop, post-stop) every registered hook whose callback
  for the phase is present is called, in the order of the list, whatever the callbacks
  return, and the entry point returns no error: the calls recorded are the names of
  the hooks with a callback, and the environment is the one obtained by applying these
  callbacks one after the other.
\<close>

theorem teardown_runs_every_hook:
  "RunPreStopHooks \<lparr>EnabledHooks = en, Hooks = map recordedHook hs\<rparr> c t f i (s, []) =
     (None, \<lparr>EnabledHooks = en, Hooks = map recordedHook hs\<rparr>,
      (foldl (\<lambda>s h. snd (the (RunPreStop h) c t f i s)) s (filter (\<lambda>h. RunPreStop h \<noteq> None) hs),
       map Name (filter (\<lambda>h. RunPreStop h \<noteq> None) hs)))
   \<and> RunPostStopHooks \<lparr>EnabledHooks = en, Hooks = map recordedHook hs\<rparr> c t f i (s, []) =
     (None, \<lparr>EnabledHooks = en, Hooks = map recordedHook hs\<rparr>,
      (foldl (\<lambda>s h. snd (the (RunPostStop h) c t f i s)) s (filter (\<lambda>h. RunPostStop h \<noteq> None) hs),
       map Name (filter (\<lambda>h. RunPostStop h \<noteq> None) hs)))"
  by (simp add: RunPreStopHooks_def RunPostStopHooks_def runHooks_def
      teardown_loop[where sel = RunPreStop, OF cb_preStop] teardown_loop[where sel = RunPostStop, OF cb_postStop])

theorem teardown_runs_every_hook_witness:
  "RunPreStopHooks \<lparr>EnabledHooks = {''h1'', ''h2'', ''h3''},
       Hooks = map recordedHook [failingHook ''h1'' 3, plainHook ''h2'' 2, countingHook ''h3'' 1]\<rparr>
       () emptyTask () ''id'' (0, [])
     = (None, \<lparr>EnabledHooks = {''h1'', ''h2'', ''h3''},
         Hooks = map recordedHook [failingHook ''h1'' 3, plainHook ''h2'' 2, countingHook ''h3'' 1]\<rparr>,
        (2, [''h1'', ''h3'']))
   \<and> RunPostStopHooks \<lparr>EnabledHooks = {''h1'', ''h2'', ''h3''},
       Hooks = map recordedHook [failingHook ''h1'' 3, plainHook ''h2'' 2, countingHook ''h3'' 1]\<rparr>
       () emptyTask () ''id'' (0, [])
     = (None, \<lparr>EnabledHooks = {''h1'', ''h2'', ''h3''},
         Hooks = map recordedHook [failingHook ''h1'' 3, plainHook ''h2'' 2, countingHook ''h3'' 1]\<rparr>,
        (2, [''h1'', ''h3'']))"
  using teardown_runs_every_hook[of "{''h1'', ''h2'', ''h3''}"
      "[failingHook ''h1'' 3, plainHook ''h2'' 2, countingHook ''h3'' 1]" "()" emptyTask "()" "''id''" 0]
  by (simp add: countingHook_def failingHook_def plainHook_def)

text \<open>
  C3, as amended. After every sequence of \<open>RegisterHooks\<close> calls on a new manager, the
  registered list holds exactly the enabled hooks among those passed (as a
  multiset) and is ordered by non-increasing priority. The order holds when
  \<open>RegisterHooks\<close> returns, so before any run entry point is called. Up to 12
  registered hooks this is proved of the insertion sort that \<open>sort.Sort\<close> runs;
  beyond, it rests on the condition \<open>lib\<close> on the library: given the comparison of
  \<open>sortByPriority\<close>, its sort of a longer slice returns the same hooks ordered by
  non-increasing priority. Nothing is said of the order among hooks of equal
  priority.
\<close>

theorem registered_hooks_sorted:
  assumes lib: "\<And>data. less_by data = (\<lambda>h1 h2. \<not> (Priority h1 < Priority h2)) \<Longrightarrow> 12 < Len data \<Longrightarrow>
      mset (hooks (pdqsort data)) = mset (hooks data) \<and>
      sorted_wrt (\<lambda>h1 h2. Priority h1 \<ge> Priority h2) (hooks (pdqsort data))"
  shows "mset (Hooks (foldl (RegisterHooks pdqsort) (NewManager enabled) calls)) =
           mset (filter (\<lambda>h. Name h \<in> set enabled) (concat calls)) \<and>
         sorted_wrt (\<lambda>h1 h2. Priority h1 \<ge> Priority h2)
           (Hooks (foldl (RegisterHooks pdqsort) (NewManager enabled) calls))"
proof -
  have "sorted_wrt prio_ge (Hooks (foldl (RegisterHooks pdqsort) (NewManager enabled) calls))"
    by (rule RegisterHooks_calls_sorted[of pdqsort, OF lib]) (simp_all add: NewManager_def)
  then have "sorted_wrt (\<lambda>h1 h2. Priority h1 \<ge> Priority h2)
      (Hooks (foldl (RegisterHooks pdqsort) (NewManager enabled) calls))"
    by (simp add: prio_ge_def[abs_def] not_less)
  then show ?thesis
    using RegisterHooks_calls[of pdqsort "NewManager enabled" calls, OF lib]
    by (simp add: NewManager_def)
qed

theorem registered_hooks_sorted_witness:
  "map Name (Hooks (foldl (RegisterHooks (\<lambda>data. insertionSort data 0 (Len data)))
      (NewManager thirteenNames) thirteenHooks)) =
     [''d'', ''m'', ''k'', ''l'', ''i'', ''j'', ''g'', ''h'', ''e'', ''f'', ''b'', ''c'', ''a'']
   \<and> mset (Hooks (foldl (RegisterHooks (\<lambda>data. insertionSort data 0 (Len data)))
      (NewManager thirteenNames) thirteenHooks)) =
     mset (filter (\<lambda>h. Name h \<in> set thirteenNames) (concat thirteenHooks))
   \<and> sorted_wrt (\<lambda>h1 h2. Priority h1 \<ge> Priority h2)
       (Hooks (foldl (RegisterHooks (\<lambda>data. insertionSort data 0 (Len data)))
          (NewManager thirteenNames) thirteenHooks))"
proof -
  have run: "map Name (Hooks (foldl (RegisterHooks (\<lambda>data. insertionSort data 0 (Len data)))
      (NewManager thirteenNames) thirteenHooks)) =
     [''d'', ''m'', ''k'', ''l'', ''i'', ''j'', ''g'', ''h'', ''e'', ''f'', ''b'', ''c'', ''a'']"
    by (simp add: thirteenNames_def thirteenHooks_def sort_eval plainHook_def upt_rec_numeral)
  show ?thesis
    using registered_hooks_sorted[of "\<lambda>data. insertionSort data 0 (Len data)",
        OF insertionSort_as_pdqsort] run
    by blast
qed

text \<open>
  C3, as stated, fails: hooks of equal priority need not be kept in registration
  order. \<open>sort.Sort\<close> is not a stable sort, and the comparison
  \<open>!(h1.Priority < h2.Priority)\<close> holds for equal priorities, so the insertion sort
  moves the second hook in front of the first. Registering \<open>a\<close> then \<open>b\<close> in one call,
  both of priority 0, gives the run order \<open>b\<close>, \<open>a\<close>; with two hooks the library's
  long path is not reached, so it is taken here as the identity.
\<close>

theorem equal_priorities_reversed:
  "map Name (Hooks (RegisterHooks (\<lambda>data. data) (NewManager [''a'', ''b''])
      [plainHook ''a'' 0, plainHook ''b'' 0])) = [''b'', ''a'']"
  by (rule two_equal_priorities)

text \<open>
  C10. Each of the five run entry points leaves the manager as it was: the manager
  after the call (its enabled set and its hook list, members and order) is the manager
  before the call, whatever the callbacks return.
\<close>

theorem run_entry_points_keep_manager:
  "fst (snd (RunPreCreateHooks m c t f s)) = m \<and>
   fst (snd (RunPreRunHooks m c t f i s)) = m \<and>
   fst (snd (RunPostRunHooks m c t f i s)) = m \<and>
   fst (snd (RunPreStopHooks m c t f i s)) = m \<and>
   fst (snd (RunPostStopHooks m c t f i s)) = m"
  by (simp add: RunPreCreateHooks_def RunPreRunHooks_def RunPostRunHooks_def RunPreStopHooks_def
      RunPostStopHooks_def runHooks_def split: prod.splits)

section \<open>The claims about the ACL hook\<close>

text \<open>
  C4. The task has the single label \<open>EXECUTOR_0_ACL = "10.0.0.5,10.1.0.0/24"\<close>, its
  port mapping 0 is tcp with host port 8080, the external interface is \<open>eth0\<close> and no
  default CIDR is configured. \<open>net.ParseIP\<close> accepts \<open>10.0.0.5\<close> and not
  \<open>10.1.0.0/24\<close>, which \<open>net.ParseCIDR\<close> accepts, and the first append succeeds.
  Then the post-run derivation issues exactly two actions, both appends to the filter
  table on the chain it was given: the rule for the source \<open>10.0.0.5/32\<close>, then the rule
  for the source \<open>10.1.0.0/24\<close>.
\<close>

theorem acl_example_two_rules:
  assumes cfg: "acl_external_interface e = ''eth0''" "acl_default_allowed_cidr e = []"
    and net: "ParseIP e ''10.0.0.5''" "\<not> ParseIP e ''10.1.0.0/24''" "ParseCIDR e ''10.1.0.0/24''"
    and task: "GetLabels info = [\<lparr>GetKey = ''EXECUTOR_0_ACL'', GetValue = ''10.0.0.5,10.1.0.0/24''\<rparr>]"
      "GetPortMappings info = \<lparr>GetProtocol = ''tcp'', GetHostPort = 8080\<rparr> # pms"
    and first: "fst (Append d ''filter'' chain
        (Split ''-i eth0 -p tcp -s 10.0.0.5/32 --dport 8080 -j ACCEPT'' CHR '' '') s) = None"
  shows "snd (snd (generateACL e info chain (Append (recordedDriver d)) True (s, []))) =
     [AppendCall ''filter'' chain (Split ''-i eth0 -p tcp -s 10.0.0.5/32 --dport 8080 -j ACCEPT'' CHR '' ''),
      AppendCall ''filter'' chain (Split ''-i eth0 -p tcp -s 10.1.0.0/24 --dport 8080 -j ACCEPT'' CHR '' '')]"
proof -
  obtain s1 where a1: "Append d ''filter'' chain
      [''-i'', ''eth0'', ''-p'', ''tcp'', ''-s'', ''10.0.0.5/32'', ''--dport'', ''8080'', ''-j'', ''ACCEPT''] s = (None, s1)"
    using first by (cases "Append d ''filter'' chain
      [''-i'', ''eth0'', ''-p'', ''tcp'', ''-s'', ''10.0.0.5/32'', ''--dport'', ''8080'', ''-j'', ''ACCEPT''] s") simp
  obtain x s2 where a2: "Append d ''filter'' chain
      [''-i'', ''eth0'', ''-p'', ''tcp'', ''-s'', ''10.1.0.0/24'', ''--dport'', ''8080'', ''-j'', ''ACCEPT''] s1 = (x, s2)"
    by (metis surj_pair)
  show ?thesis
    using cfg net task a1 a2
    by (cases x) (simp_all add: generateACL_def externalInterface_def aclHookLabel_here_def isDigit_def
        Atoi_def decimal_def digitVal_def itoa.simps digitChar_def aclHookRuleTemplate_def
        logged_def recordedDriver_def Let_def)
qed

theorem acl_example_two_rules_witness:
  "snd (snd (generateACL (exampleEnv []) (exampleTask [(''EXECUTOR_0_ACL'', ''10.0.0.5,10.1.0.0/24'')] [examplePort]) ''ACL''
      (Append (recordedDriver (exampleDriver [''INPUT'', ''ACL'']))) True ((), []))) =
     [AppendCall ''filter'' ''ACL'' [''-i'', ''eth0'', ''-p'', ''tcp'', ''-s'', ''10.0.0.5/32'', ''--dport'', ''8080'', ''-j'', ''ACCEPT''],
      AppendCall ''filter'' ''ACL'' [''-i'', ''eth0'', ''-p'', ''tcp'', ''-s'', ''10.1.0.0/24'', ''--dport'', ''8080'', ''-j'', ''ACCEPT'']]"
  using acl_example_two_rules[of "exampleEnv []"
      "exampleTask [(''EXECUTOR_0_ACL'', ''10.0.0.5,10.1.0.0/24'')] [examplePort]" "[]"
      "exampleDriver [''INPUT'', ''ACL'']" "''ACL''" "()"]
  by (simp add: exampleEnv_def exampleTask_def examplePort_def exampleDriver_def succeed_def)

text \<open>
  C5. The task has the labels \<open>pre @ label # post\<close>, where the key of \<open>label\<close> matches
  \<open>aclHookLabel\<close> and the digits of the match denote a number \<open>N\<close> that is at least
  the number of port mappings. Then injection (\<open>stopOnError = true\<close>) returns an
  error: the error of a label of \<open>pre\<close> if one of them already stopped the derivation,
  and otherwise a validation error of the port index, which is
  \<open>Port index N does not match port mapping definition\<close> unless \<open>N\<close> does not even
  fit an \<open>int\<close>. The environment and the list of actions issued are those left by the
  labels of \<open>pre\<close>: no rule of \<open>label\<close>, of a label of \<open>post\<close> or of the default
  CIDRs is injected.
\<close>

theorem out_of_range_port_index:
  assumes labels: "GetLabels info = pre @ label # post"
    and key: "FindStringSubmatch (GetKey label) = Some match"
    and range: "decimal (match ! 1) \<ge> length (GetPortMappings info)"
  shows "fst (generateACL e info chain (logged mk act) True (s, [])) =
           (case fst (generateACL_labels e (GetPortMappings info) (externalInterface e) chain
                        (logged mk act) True pre (s, [])) of
              Some err \<Rightarrow> Some err
            | None \<Rightarrow>
                if decimal (match ! 1) > 9223372036854775807
                then Some (Errorf ''Port index 9223372036854775807 is not valid'')
                else Some (Errorf (''Port index '' @ itoa (decimal (match ! 1))
                                    @ '' does not match port mapping definition'')))
         \<and> snd (generateACL e info chain (logged mk act) True (s, [])) =
           snd (generateACL_labels e (GetPortMappings info) (externalInterface e) chain
                  (logged mk act) True pre (s, []))"
proof -
  obtain x st where r: "generateACL_labels e (GetPortMappings info) (externalInterface e) chain
                  (logged mk act) True pre (s, []) = (x, st)"
    by (metis surj_pair)
  have len: "length match = 2" using key by (rule FindStringSubmatch_length)
  have at: "Atoi (match ! 1) =
      (if decimal (match ! 1) > 9223372036854775807 then Inl 9223372036854775807
       else Inr (decimal (match ! 1)))"
    using FindStringSubmatch_digits[OF key] by (simp add: Atoi_digits)
  have big: "itoa 9223372036854775807 = ''9223372036854775807''"
    by (simp add: itoa.simps digitChar_def)
  have l: "generateACL_labels e (GetPortMappings info) (externalInterface e) chain
                  (logged mk act) True (label # post) st =
           (if decimal (match ! 1) > 9223372036854775807
            then Some (Errorf ''Port index 9223372036854775807 is not valid'')
            else Some (Errorf (''Port index '' @ itoa (decimal (match ! 1))
                                    @ '' does not match port mapping definition'')), st)"
    using key len range at by (simp add: big)
  show ?thesis
    using r l by (cases x) (simp_all add: generateACL_def labels generateACL_labels_append Let_def)
qed

theorem out_of_range_port_index_witness:
  "fst (generateACL (exampleEnv [''10.2.0.0/16''])
          (exampleTask [(''EXECUTOR_0_ACL'', ''10.0.0.5''), (''EXECUTOR_5_ACL'', ''10.0.0.6''),
                        (''EXECUTOR_1_ACL'', ''10.1.0.0/24'')] [examplePort, examplePort])
          ''ACL'' (logged AppendCall succeed) True ((), []))
     = Some (Errorf ''Port index 5 does not match port mapping definition'')
   \<and> snd (generateACL (exampleEnv [''10.2.0.0/16''])
          (exampleTask [(''EXECUTOR_0_ACL'', ''10.0.0.5''), (''EXECUTOR_5_ACL'', ''10.0.0.6''),
                        (''EXECUTOR_1_ACL'', ''10.1.0.0/24'')] [examplePort, examplePort])
          ''ACL'' (logged AppendCall succeed) True ((), []))
     = ((), [AppendCall ''filter'' ''ACL''
               [''-i'', ''eth0'', ''-p'', ''tcp'', ''-s'', ''10.0.0.5/32'', ''--dport'', ''8080'', ''-j'', ''ACCEPT'']])"
proof -
  let ?info = "exampleTask [(''EXECUTOR_0_ACL'', ''10.0.0.5''), (''EXECUTOR_5_ACL'', ''10.0.0.6''),
                        (''EXECUTOR_1_ACL'', ''10.1.0.0/24'')] [examplePort, examplePort]"
  have labels: "GetLabels ?info = [\<lparr>GetKey = ''EXECUTOR_0_ACL'', GetValue = ''10.0.0.5''\<rparr>]
      @ \<lparr>GetKey = ''EXECUTOR_5_ACL'', GetValue = ''10.0.0.6''\<rparr>
      # [\<lparr>GetKey = ''EXECUTOR_1_ACL'', GetValue = ''10.1.0.0/24''\<rparr>]"
    by (simp add: exampleTask_def)
  have key: "FindStringSubmatch (GetKey \<lparr>GetKey = ''EXECUTOR_5_ACL'', GetValue = ''10.0.0.6''\<rparr>)
      = Some [''EXECUTOR_5_ACL'', ''5'']"
    by (simp add: aclHookLabel_here_def isDigit_def)
  have range: "decimal ([''EXECUTOR_5_ACL'', ''5''] ! 1) \<ge> length (GetPortMappings ?info)"
    by (simp add: exampleTask_def decimal_def digitVal_def)
  have pre: "generateACL_labels (exampleEnv [''10.2.0.0/16'']) (GetPortMappings ?info)
      (externalInterface (exampleEnv [''10.2.0.0/16''])) ''ACL'' (logged AppendCall succeed) True
      [\<lparr>GetKey = ''EXECUTOR_0_ACL'', GetValue = ''10.0.0.5''\<rparr>] ((), [])
    = (None, ((), [AppendCall ''filter'' ''ACL''
               [''-i'', ''eth0'', ''-p'', ''tcp'', ''-s'', ''10.0.0.5/32'', ''--dport'', ''8080'', ''-j'', ''ACCEPT'']]))"
    by (simp add: acl_eval)
  show ?thesis
    using out_of_range_port_index[OF labels key range,
        of "exampleEnv [''10.2.0.0/16'']" "''ACL''" AppendCall succeed "()", unfolded pre]
    by (simp add: itoa.simps digitChar_def decimal_def digitVal_def)
qed



text \<open>
  C7, as amended. In retraction mode (\<open>stopOnError = false\<close>) a failing action never
  prevents the remaining rules from being attempted: whatever the action does and
  returns, \<open>generateACL\<close> returns the error and issues the actions, in the same order,
  of a run in which every action succeeds. (What ends that run early is a validation
  error of a label, see below.)
\<close>

theorem retraction_ignores_action_failures:
  "fst (generateACL e info chain (logged mk act) False (s, [])) =
     fst (generateACL e info chain (logged mk succeed) True (u, []))
   \<and> snd (snd (generateACL e info chain (logged mk act) False (s, []))) =
     snd (snd (generateACL e info chain (logged mk succeed) True (u, [])))"
  using retraction_plan[of e info chain mk act s "[]"] retraction_plan[of e info chain mk succeed u "[]"]
  by (simp add: generateACL_succeed)

theorem retraction_ignores_action_failures_witness:
  "generateACL (exampleEnv [''10.2.0.0/16''])
      (exampleTask [(''EXECUTOR_0_ACL'', ''10.0.0.5,10.0.0.6'')] [examplePort])
      ''ACL'' (logged DeleteCall refuse) False ((), [])
     = (None, ((), [DeleteCall ''filter'' ''ACL''
               [''-i'', ''eth0'', ''-p'', ''tcp'', ''-s'', ''10.0.0.5/32'', ''--dport'', ''8080'', ''-j'', ''ACCEPT''],
             DeleteCall ''filter'' ''ACL''
               [''-i'', ''eth0'', ''-p'', ''tcp'', ''-s'', ''10.0.0.6/32'', ''--dport'', ''8080'', ''-j'', ''ACCEPT''],
             DeleteCall ''filter'' ''ACL''
               [''-i'', ''eth0'', ''-p'', ''tcp'', ''-s'', ''10.2.0.0/16'', ''--dport'', ''8080'', ''-j'', ''ACCEPT'']]))"
proof -
  have ok: "generateACL (exampleEnv [''10.2.0.0/16''])
      (exampleTask [(''EXECUTOR_0_ACL'', ''10.0.0.5,10.0.0.6'')] [examplePort])
      ''ACL'' (logged DeleteCall succeed) True ((), [])
     = (None, ((), [DeleteCall ''filter'' ''ACL''
               [''-i'', ''eth0'', ''-p'', ''tcp'', ''-s'', ''10.0.0.5/32'', ''--dport'', ''8080'', ''-j'', ''ACCEPT''],
             DeleteCall ''filter'' ''ACL''
               [''-i'', ''eth0'', ''-p'', ''tcp'', ''-s'', ''10.0.0.6/32'', ''--dport'', ''8080'', ''-j'', ''ACCEPT''],
             DeleteCall ''filter'' ''ACL''
               [''-i'', ''eth0'', ''-p'', ''tcp'', ''-s'', ''10.2.0.0/16'', ''--dport'', ''8080'', ''-j'', ''ACCEPT'']]))"
    by (simp add: acl_eval)
  show ?thesis
    using retraction_ignores_action_failures[of "exampleEnv [''10.2.0.0/16'']"
        "exampleTask [(''EXECUTOR_0_ACL'', ''10.0.0.5,10.0.0.6'')] [examplePort]" "''ACL''" DeleteCall refuse "()" "()"]
    by (simp add: ok prod_eq_iff)
qed

text \<open>
  C7, as stated, fails: the checks of a label return their error whatever
  \<open>stopOnError\<close> is. With the labels \<open>EXECUTOR_0_ACL = "bogus"\<close> and
  \<open>EXECUTOR_0_ACL = "10.0.0.5"\<close> and the default CIDR \<open>10.2.0.0/16\<close>, the retraction
  returns \<open>Invalid IP: bogus\<close> and attempts no rule, although every delete would
  succeed; without the first label it attempts the rule of the second label and the
  rule of the default CIDR.
\<close>

theorem retraction_stops_at_invalid_label:
  "generateACL (exampleEnv [''10.2.0.0/16''])
      (exampleTask [(''EXECUTOR_0_ACL'', ''bogus''), (''EXECUTOR_0_ACL'', ''10.0.0.5'')] [examplePort])
      ''ACL'' (logged DeleteCall succeed) False ((), [])
     = (Some (Errorf ''Invalid IP: bogus''), ((), []))
   \<and> generateACL (exampleEnv [''10.2.0.0/16''])
      (exampleTask [(''EXECUTOR_0_ACL'', ''10.0.0.5'')] [examplePort])
      ''ACL'' (logged DeleteCall succeed) False ((), [])
     = (None, ((), [DeleteCall ''filter'' ''ACL''
               [''-i'', ''eth0'', ''-p'', ''tcp'', ''-s'', ''10.0.0.5/32'', ''--dport'', ''8080'', ''-j'', ''ACCEPT''],
             DeleteCall ''filter'' ''ACL''
               [''-i'', ''eth0'', ''-p'', ''tcp'', ''-s'', ''10.2.0.0/16'', ''--dport'', ''8080'', ''-j'', ''ACCEPT'']]))"
  by (simp add: acl_eval)

text \<open>
  C8, as amended. \<open>checkChain\<close> returns an error when \<open>acl.chain\<close> is not set and when
  it is \<open>FORWARD\<close> or \<open>OUTPUT\<close>, the two built-in chains the code names; in both cases
  the driver is not called and the environment is unchanged, so no chain is listed.
  When the configured chain is none of these and is not among the chains the driver
  lists for the filter table, \<open>checkChain\<close> returns \<open>Chain ... does not exists\<close>, and
  its only call of the driver is the listing: it creates no chain.
\<close>

theorem checkChain_errors:
  "(acl_chain e = '''' \<longrightarrow>
      checkChain e (recordedDriver d) (s, []) =
        (Inl (Errorf ''no iptables chain set for acl hook''), (s, [])))
   \<and> (acl_chain e = ''FORWARD'' \<or> acl_chain e = ''OUTPUT'' \<longrightarrow>
      checkChain e (recordedDriver d) (s, []) =
        (Inl (Errorf ''forward and ouput chains cannot be used for acl injection''), (s, [])))
   \<and> (acl_chain e \<noteq> '''' \<and> acl_chain e \<noteq> ''FORWARD'' \<and> acl_chain e \<noteq> ''OUTPUT''
        \<and> ListChains d ''filter'' s = (Inr chs, s') \<and> acl_chain e \<notin> set chs \<longrightarrow>
      checkChain e (recordedDriver d) (s, []) =
        (Inl (Errorf (''Chain '' @ acl_chain e @ '' does not exists'')),
         (s', [ListChainsCall ''filter''])))"
  by (auto simp: checkChain_def recordedDriver_def Let_def)

theorem checkChain_errors_witness:
  "checkChain ((exampleEnv [])\<lparr>acl_chain := ''''\<rparr>) (recordedDriver (exampleDriver [''INPUT'', ''FORWARD'', ''OUTPUT''])) ((), [])
     = (Inl (Errorf ''no iptables chain set for acl hook''), ((), []))
   \<and> checkChain ((exampleEnv [])\<lparr>acl_chain := ''FORWARD''\<rparr>) (recordedDriver (exampleDriver [''INPUT'', ''FORWARD'', ''OUTPUT''])) ((), [])
     = (Inl (Errorf ''forward and ouput chains cannot be used for acl injection''), ((), []))
   \<and> checkChain (exampleEnv []) (recordedDriver (exampleDriver [''INPUT'', ''FORWARD'', ''OUTPUT''])) ((), [])
     = (Inl (Errorf ''Chain ACL does not exists''), ((), [ListChainsCall ''filter'']))"
  using checkChain_errors[of "(exampleEnv [])\<lparr>acl_chain := ''''\<rparr>" "exampleDriver [''INPUT'', ''FORWARD'', ''OUTPUT'']" "()"]
    checkChain_errors[of "(exampleEnv [])\<lparr>acl_chain := ''FORWARD''\<rparr>" "exampleDriver [''INPUT'', ''FORWARD'', ''OUTPUT'']" "()"]
    checkChain_errors[of "exampleEnv []" "exampleDriver [''INPUT'', ''FORWARD'', ''OUTPUT'']" "()" "[''INPUT'', ''FORWARD'', ''OUTPUT'']" "()"]
  by (simp add: exampleEnv_def exampleDriver_def)

text \<open>
  C8, as stated, fails for the third built-in chain of the filter table: \<open>INPUT\<close> is
  not rejected. With \<open>acl.chain = INPUT\<close>, \<open>checkChain\<close> lists the chains of the filter
  table and, finding \<open>INPUT\<close> among them, returns it with no error.
\<close>

theorem checkChain_accepts_INPUT:
  "checkChain ((exampleEnv [])\<lparr>acl_chain := ''INPUT''\<rparr>)
      (recordedDriver (exampleDriver [''INPUT'', ''FORWARD'', ''OUTPUT''])) ((), [])
     = (Inr ''INPUT'', ((), [ListChainsCall ''filter'']))"
  by (simp add: checkChain_def recordedDriver_def exampleEnv_def exampleDriver_def)

section \<open>The claim about the containerd containerizer\<close>

text \<open>
  C9. The claim does not hold of \<open>ContainerGetPID\<close>: for every containerizer and every
  container id, known or not, it returns the pid \<open>-1\<close> and no error.
\<close>

theorem ContainerGetPID_unknown:
  "ContainerGetPID c ident = (-1, None)"
  by (simp add: ContainerGetPID_def)

end
